theory Spec2Isabelle
  imports Complex_Main "HOL-Library.Log_Nat"
begin

section \<open>JavaScript values\<close>

text \<open>
  Numbers are IEEE doubles in the program: a finite number is a rational here, and
  \<open>dbl\<close> below rounds a rational to the nearest double. The sign of zero is not
  distinguished. The bridge's numbers (what \<open>parseFloat\<close>, \<open>parseInt\<close> and
  \<open>JSON.parse\<close> read, and the product and the quotient of \<open>getPlayerState\<close>) are
  rounded so. The client's arithmetic (the progress ratio, the expiry times) is kept
  exact.
\<close>

datatype jsnum = Fin rat | PosInf | NegInf | NaN

datatype jsval =
    JUndef
  | JNull
  | JBool bool
  | JNum jsnum
  | JStr string
  | JArr "jsval list"
  | JObj "(string \<times> jsval) list"

text \<open>Truthiness, as \<open>!x\<close>, \<open>x || y\<close> and \<open>if (x)\<close> test it.\<close>

fun truthy_num :: "jsnum \<Rightarrow> bool" where
  "truthy_num (Fin q) = (q \<noteq> 0)"
| "truthy_num PosInf = True"
| "truthy_num NegInf = True"
| "truthy_num NaN = False"

fun truthy :: "jsval \<Rightarrow> bool" where
  "truthy JUndef = False"
| "truthy JNull = False"
| "truthy (JBool b) = b"
| "truthy (JNum n) = truthy_num n"
| "truthy (JStr s) = (s \<noteq> [])"
| "truthy (JArr xs) = True"
| "truthy (JObj kvs) = True"

definition js_or :: "jsval \<Rightarrow> jsval \<Rightarrow> jsval" where
  "js_or a b = (if truthy a then a else b)"

text \<open>\<open>x || d\<close> for \<open>x\<close> a string or \<open>null\<close> (a result of \<open>playerctl\<close>) and \<open>d\<close> a string.\<close>

fun or_str :: "string option \<Rightarrow> string \<Rightarrow> string" where
  "or_str None d = d"
| "or_str (Some s) d = (if s = [] then d else s)"

text \<open>
  \<open>String.prototype.trim\<close>: white space and line terminators are removed at both ends
  (the ASCII ones; strings are byte strings here).
\<close>

definition is_space :: "char \<Rightarrow> bool" where
  "is_space c = (c \<in> set [CHR '' '', CHR 0x09, CHR 0x0A, CHR 0x0B, CHR 0x0C, CHR 0x0D])"

definition trim :: "string \<Rightarrow> string" where
  "trim s = rev (dropWhile is_space (rev (dropWhile is_space s)))"

subsection \<open>Arithmetic on numbers\<close>

text \<open>The exact results; \<open>rounded\<close> below brings one to the nearest double.\<close>

fun js_neg :: "jsnum \<Rightarrow> jsnum" where
  "js_neg (Fin q) = Fin (- q)"
| "js_neg PosInf = NegInf"
| "js_neg NegInf = PosInf"
| "js_neg NaN = NaN"

definition inf_of_sign :: "rat \<Rightarrow> jsnum" where
  "inf_of_sign q = (if q = 0 then NaN else if 0 < q then PosInf else NegInf)"

fun js_mul :: "jsnum \<Rightarrow> jsnum \<Rightarrow> jsnum" where
  "js_mul (Fin a) (Fin b) = Fin (a * b)"
| "js_mul NaN y = NaN"
| "js_mul x NaN = NaN"
| "js_mul (Fin a) PosInf = inf_of_sign a"
| "js_mul (Fin a) NegInf = inf_of_sign (- a)"
| "js_mul PosInf (Fin b) = inf_of_sign b"
| "js_mul NegInf (Fin b) = inf_of_sign (- b)"
| "js_mul PosInf PosInf = PosInf"
| "js_mul PosInf NegInf = NegInf"
| "js_mul NegInf PosInf = NegInf"
| "js_mul NegInf NegInf = PosInf"

fun js_div :: "jsnum \<Rightarrow> jsnum \<Rightarrow> jsnum" where
  "js_div (Fin a) (Fin b) = (if b = 0 then inf_of_sign a else Fin (a / b))"
| "js_div NaN y = NaN"
| "js_div x NaN = NaN"
| "js_div (Fin a) PosInf = Fin 0"
| "js_div (Fin a) NegInf = Fin 0"
| "js_div PosInf (Fin b) = (if b < 0 then NegInf else PosInf)"
| "js_div NegInf (Fin b) = (if b < 0 then PosInf else NegInf)"
| "js_div PosInf PosInf = NaN"
| "js_div PosInf NegInf = NaN"
| "js_div NegInf PosInf = NaN"
| "js_div NegInf NegInf = NaN"

fun js_add :: "jsnum \<Rightarrow> jsnum \<Rightarrow> jsnum" where
  "js_add (Fin a) (Fin b) = Fin (a + b)"
| "js_add NaN y = NaN"
| "js_add x NaN = NaN"
| "js_add (Fin a) PosInf = PosInf"
| "js_add (Fin a) NegInf = NegInf"
| "js_add PosInf (Fin b) = PosInf"
| "js_add NegInf (Fin b) = NegInf"
| "js_add PosInf PosInf = PosInf"
| "js_add PosInf NegInf = NaN"
| "js_add NegInf PosInf = NaN"
| "js_add NegInf NegInf = NegInf"

definition js_sub :: "jsnum \<Rightarrow> jsnum \<Rightarrow> jsnum" where
  "js_sub a b = js_add a (js_neg b)"

fun js_gt :: "jsnum \<Rightarrow> jsnum \<Rightarrow> bool" where
  "js_gt (Fin a) (Fin b) = (a > b)"
| "js_gt NaN y = False"
| "js_gt x NaN = False"
| "js_gt (Fin a) PosInf = False"
| "js_gt (Fin a) NegInf = True"
| "js_gt PosInf (Fin b) = True"
| "js_gt NegInf (Fin b) = False"
| "js_gt PosInf PosInf = False"
| "js_gt PosInf NegInf = True"
| "js_gt NegInf PosInf = False"
| "js_gt NegInf NegInf = False"

fun Math_floor :: "jsnum \<Rightarrow> jsnum" where
  "Math_floor (Fin q) = Fin (of_int \<lfloor>q\<rfloor>)"
| "Math_floor PosInf = PosInf"
| "Math_floor NegInf = NegInf"
| "Math_floor NaN = NaN"

subsection \<open>Rounding to doubles\<close>

text \<open>
  Round to nearest, ties to even, with 53 bits: a positive \<open>a\<close> is scaled by the power
  of two that brings it between \<open>2 ^ 52\<close> and \<open>2 ^ 53\<close> (never below the exponent
  \<open>-1074\<close> of the subnormal numbers), rounded to an integer and scaled back; from
  \<open>2 ^ 1024\<close> on the result is infinite. \<open>ilog2 a\<close> is the integer part of the
  binary logarithm.
\<close>

definition pow2 :: "int \<Rightarrow> rat" where
  "pow2 e = (if 0 \<le> e then 2 ^ nat e else 1 / 2 ^ nat (- e))"

definition ilog2 :: "rat \<Rightarrow> int" where
  "ilog2 a = (if 1 \<le> a then bitlen \<lfloor>a\<rfloor> - 1 else - bitlen (\<lceil>1 / a\<rceil> - 1))"

definition half_even :: "rat \<Rightarrow> int" where
  "half_even y =
     (let f = \<lfloor>y\<rfloor>; r = y - of_int f
      in if r < 1 / 2 then f else if 1 / 2 < r then f + 1 else if even f then f else f + 1)"

definition dbl :: "rat \<Rightarrow> jsnum" where
  "dbl q =
     (if q = 0 then Fin 0
      else
        let a = \<bar>q\<bar>;
            e = max (ilog2 a - 52) (- 1074);
            v = of_int (half_even (a / pow2 e)) * pow2 e
        in if 2 ^ 1024 \<le> v then (if q < 0 then NegInf else PosInf)
           else Fin (if q < 0 then - v else v))"

fun rounded :: "jsnum \<Rightarrow> jsnum" where
  "rounded (Fin q) = dbl q"
| "rounded PosInf = PosInf"
| "rounded NegInf = NegInf"
| "rounded NaN = NaN"

text \<open>\<open>a * b\<close> and \<open>a / b\<close> as doubles.\<close>

definition num_mul :: "jsnum \<Rightarrow> jsnum \<Rightarrow> jsnum" where
  "num_mul a b = rounded (js_mul a b)"

definition num_div :: "jsnum \<Rightarrow> jsnum \<Rightarrow> jsnum" where
  "num_div a b = rounded (js_div a b)"

subsection \<open>parseFloat and parseInt\<close>

definition is_digit :: "char \<Rightarrow> bool" where
  "is_digit c = (48 \<le> (of_char c :: nat) \<and> (of_char c :: nat) \<le> 57)"

definition digit_val :: "char \<Rightarrow> nat" where
  "digit_val c = of_char c - 48"

definition digits_val :: "string \<Rightarrow> nat" where
  "digits_val ds = foldl (\<lambda>a c. 10 * a + digit_val c) 0 ds"

text \<open>An optional sign: whether it is a minus, and the rest.\<close>

fun sign :: "string \<Rightarrow> bool \<times> string" where
  "sign [] = (False, [])"
| "sign (c # cs) =
     (if c = CHR ''-'' then (True, cs) else if c = CHR ''+'' then (False, cs) else (False, c # cs))"

definition pow10 :: "int \<Rightarrow> rat" where
  "pow10 e = (if 0 \<le> e then 10 ^ nat e else 1 / 10 ^ nat (- e))"

definition signed :: "bool \<Rightarrow> rat \<Rightarrow> rat" where
  "signed neg q = (if neg then - q else q)"

text \<open>The exponent part \<open>e\<close>, \<open>e+\<close>, \<open>e-\<close> with digits, if one starts the string; else 0.\<close>

definition exponent :: "string \<Rightarrow> int" where
  "exponent r =
     (case r of
        [] \<Rightarrow> 0
      | c # t \<Rightarrow>
          if c = CHR ''e'' \<or> c = CHR ''E'' then
            (let (neg, t') = sign t; ds = takeWhile is_digit t'
             in if ds = [] then 0
                else if neg then - int (digits_val ds) else int (digits_val ds))
          else 0)"

definition parseFloat :: "string \<Rightarrow> jsnum" where
  "parseFloat s =
     (let (neg, s2) = sign (dropWhile is_space s)
      in if take 8 s2 = ''Infinity'' then (if neg then NegInf else PosInf)
         else
           let ip = takeWhile is_digit s2;
               r1 = dropWhile is_digit s2;
               (fp, r2) = (case r1 of
                             [] \<Rightarrow> ([], r1)
                           | c # t \<Rightarrow>
                               if c = CHR ''.'' then (takeWhile is_digit t, dropWhile is_digit t)
                               else ([], r1))
           in if ip = [] \<and> fp = [] then NaN
              else dbl (signed neg
                     (of_nat (digits_val (ip @ fp)) / 10 ^ length fp * pow10 (exponent r2))))"

text \<open>\<open>parseInt(s, 10)\<close> on a string.\<close>

definition parseInt :: "string \<Rightarrow> jsnum" where
  "parseInt s =
     (let (neg, s2) = sign (dropWhile is_space s);
          ds = takeWhile is_digit s2
      in if ds = [] then NaN else dbl (signed neg (of_nat (digits_val ds))))"


subsection \<open>JSON.parse\<close>

text \<open>
  The runtime's \<open>JSON.parse\<close>, which the program calls on the bridge's output, as a
  recursive-descent parser of the JSON grammar on byte strings. An escape of \<open>u\<close>
  and four hexadecimal digits stands for the UTF-8 bytes of its code unit.
\<close>

datatype js_error = SyntaxError string | TypeError string

definition is_json_ws :: "char \<Rightarrow> bool" where
  "is_json_ws c = (c \<in> set [CHR '' '', CHR 0x09, CHR 0x0A, CHR 0x0D])"

definition skip_ws :: "string \<Rightarrow> string" where
  "skip_ws s = dropWhile is_json_ws s"

definition hex_val :: "char \<Rightarrow> nat option" where
  "hex_val c =
     (let n = (of_char c :: nat)
      in if 48 \<le> n \<and> n \<le> 57 then Some (n - 48)
         else if 65 \<le> n \<and> n \<le> 70 then Some (n - 55)
         else if 97 \<le> n \<and> n \<le> 102 then Some (n - 87)
         else None)"

definition hex4 :: "char \<Rightarrow> char \<Rightarrow> char \<Rightarrow> char \<Rightarrow> nat option" where
  "hex4 a b c d =
     (case (hex_val a, hex_val b, hex_val c, hex_val d) of
        (Some x, Some y, Some z, Some w) \<Rightarrow> Some (((x * 16 + y) * 16 + z) * 16 + w)
      | _ \<Rightarrow> None)"

text \<open>The bytes (UTF-8) of one code unit below \<open>0x10000\<close>.\<close>

definition utf8 :: "nat \<Rightarrow> string" where
  "utf8 n =
     (if n < 128 then [char_of n]
      else if n < 2048 then [char_of (192 + n div 64), char_of (128 + n mod 64)]
      else [char_of (224 + n div 4096), char_of (128 + (n div 64) mod 64),
            char_of (128 + n mod 64)])"

definition escape :: "char \<Rightarrow> char option" where
  "escape e =
     (if e = CHR 0x22 \<or> e = CHR 0x5C \<or> e = CHR ''/'' then Some e
      else if e = CHR ''b'' then Some (CHR 0x08)
      else if e = CHR ''f'' then Some (CHR 0x0C)
      else if e = CHR ''n'' then Some (CHR 0x0A)
      else if e = CHR ''r'' then Some (CHR 0x0D)
      else if e = CHR ''t'' then Some (CHR 0x09)
      else None)"

definition prepend :: "string \<Rightarrow> (string \<times> string) option \<Rightarrow> (string \<times> string) option" where
  "prepend p r = (case r of None \<Rightarrow> None | Some (s, t) \<Rightarrow> Some (p @ s, t))"

text \<open>The characters of a string literal after its opening quote, and what follows it.\<close>

fun p_string :: "string \<Rightarrow> (string \<times> string) option" where
  "p_string [] = None"
| "p_string (c # cs) =
     (if c = CHR 0x22 then Some ([], cs)
      else if c = CHR 0x5C then
        (case cs of
           [] \<Rightarrow> None
         | e # r \<Rightarrow>
             if e = CHR ''u'' then
               (case r of
                  h1 # h2 # h3 # h4 # r' \<Rightarrow>
                    (case hex4 h1 h2 h3 h4 of
                       None \<Rightarrow> None
                     | Some n \<Rightarrow> prepend (utf8 n) (p_string r'))
                | _ \<Rightarrow> None)
             else
               (case escape e of
                  None \<Rightarrow> None
                | Some x \<Rightarrow> prepend [x] (p_string r)))
      else if (of_char c :: nat) < 32 then None
      else prepend [c] (p_string cs))"

text \<open>A number literal at the head of the string, and what follows it.\<close>

definition p_number :: "string \<Rightarrow> (jsnum \<times> string) option" where
  "p_number s =
     (let (neg, s1) = (case s of
                         [] \<Rightarrow> (False, s)
                       | c # t \<Rightarrow> if c = CHR ''-'' then (True, t) else (False, s));
          ip = (case s1 of
                  [] \<Rightarrow> []
                | c # t \<Rightarrow> if c = CHR ''0'' then [c] else takeWhile is_digit s1);
          r1 = drop (length ip) s1
      in if ip = [] then None
         else
           (case (case r1 of
                    [] \<Rightarrow> Some ([], r1)
                  | c # t \<Rightarrow>
                      if c = CHR ''.'' then
                        (if takeWhile is_digit t = [] then None
                         else Some (takeWhile is_digit t, dropWhile is_digit t))
                      else Some ([], r1)) of
              None \<Rightarrow> None
            | Some (fp, r2) \<Rightarrow>
                (case (case r2 of
                         [] \<Rightarrow> Some (0, r2)
                       | c # t \<Rightarrow>
                           if c = CHR ''e'' \<or> c = CHR ''E'' then
                             (let (eneg, t') = sign t; ds = takeWhile is_digit t'
                              in if ds = [] then None
                                 else Some (if eneg then - int (digits_val ds)
                                            else int (digits_val ds),
                                            dropWhile is_digit t'))
                           else Some (0, r2)) of
                   None \<Rightarrow> None
                 | Some (e, r3) \<Rightarrow>
                     Some (dbl (signed neg
                             (of_nat (digits_val (ip @ fp)) / 10 ^ length fp * pow10 e)),
                           r3))))"

lemma length_skip_ws: "length (skip_ws s) \<le> length s"
  by (simp add: skip_ws_def length_dropWhile_le)

lemma skip_ws_Cons: "skip_ws s = c # t \<Longrightarrow> length t < length s"
  using length_skip_ws [of s] by simp

lemma p_string_shorter: "p_string s = Some (x, r) \<Longrightarrow> length r < length s"
proof (induction s arbitrary: x r rule: p_string.induct)
  case 1
  then show ?case by simp
next
  case (2 c cs)
  then show ?case
    by (fastforce simp add: prepend_def split: if_splits list.splits option.splits prod.splits)
qed

text \<open>
  A value, the elements of an array after its bracket, and the members of an object
  after its brace, each with what follows. A value consumes input: the comparisons of
  lengths below state this where the recursion goes on after a value.
\<close>

function p_value :: "string \<Rightarrow> (jsval \<times> string) option"
  and p_elements :: "string \<Rightarrow> (jsval list \<times> string) option"
  and p_members :: "string \<Rightarrow> ((string \<times> jsval) list \<times> string) option"
where
  "p_value s =
     (case skip_ws s of
        [] \<Rightarrow> None
      | c # t \<Rightarrow>
          if c = CHR 0x22 then
            (case p_string t of None \<Rightarrow> None | Some (x, r) \<Rightarrow> Some (JStr x, r))
          else if c = CHR ''['' then
            (case skip_ws t of
               [] \<Rightarrow> None
             | d # u \<Rightarrow>
                 if d = CHR '']'' then Some (JArr [], u)
                 else (case p_elements (d # u) of
                         None \<Rightarrow> None
                       | Some (vs, r) \<Rightarrow> Some (JArr vs, r)))
          else if c = CHR ''{'' then
            (case skip_ws t of
               [] \<Rightarrow> None
             | d # u \<Rightarrow>
                 if d = CHR ''}'' then Some (JObj [], u)
                 else (case p_members (d # u) of
                         None \<Rightarrow> None
                       | Some (kvs, r) \<Rightarrow> Some (JObj kvs, r)))
          else if take 4 (c # t) = ''null'' then Some (JNull, drop 4 (c # t))
          else if take 4 (c # t) = ''true'' then Some (JBool True, drop 4 (c # t))
          else if take 5 (c # t) = ''false'' then Some (JBool False, drop 5 (c # t))
          else (case p_number (c # t) of
                  None \<Rightarrow> None
                | Some (n, r) \<Rightarrow> Some (JNum n, r)))"
| "p_elements s =
     (case p_value s of
        None \<Rightarrow> None
      | Some (v, r) \<Rightarrow>
          if length r < length s then
            (case skip_ws r of
               [] \<Rightarrow> None
             | c # t \<Rightarrow>
                 if c = CHR '']'' then Some ([v], t)
                 else if c = CHR '','' then
                   (case p_elements t of
                      None \<Rightarrow> None
                    | Some (vs, r') \<Rightarrow> Some (v # vs, r'))
                 else None)
          else None)"
| "p_members s =
     (case skip_ws s of
        [] \<Rightarrow> None
      | q # t \<Rightarrow>
          if q = CHR 0x22 then
            (case p_string t of
               None \<Rightarrow> None
             | Some (k, r) \<Rightarrow>
                 (case skip_ws r of
                    [] \<Rightarrow> None
                  | c # r1 \<Rightarrow>
                      if c = CHR '':'' then
                        (case p_value r1 of
                           None \<Rightarrow> None
                         | Some (v, r2) \<Rightarrow>
                             if length r2 < length s then
                               (case skip_ws r2 of
                                  [] \<Rightarrow> None
                                | d # r3 \<Rightarrow>
                                    if d = CHR ''}'' then Some ([(k, v)], r3)
                                    else if d = CHR '','' then
                                      (case p_members r3 of
                                         None \<Rightarrow> None
                                       | Some (kvs, r4) \<Rightarrow> Some ((k, v) # kvs, r4))
                                    else None)
                             else None)
                      else None))
          else None)"
  by pat_completeness auto


termination
proof (relation "measure (\<lambda>x. case x of Inl s \<Rightarrow> 2 * length s
          | Inr (Inl s) \<Rightarrow> 2 * length s + 1 | Inr (Inr s) \<Rightarrow> 2 * length s + 1)", goal_cases)
  case 1
  then show ?case by simp
next
  case (2 s c t d u)
  then show ?case
    using skip_ws_Cons [of s c t] skip_ws_Cons [of t d u] by simp
next
  case (3 s c t d u)
  then show ?case
    using skip_ws_Cons [of s c t] skip_ws_Cons [of t d u] by simp
next
  case (4 s)
  then show ?case by simp
next
  case (5 s x v r c t)
  then show ?case
    using skip_ws_Cons [of r c t] by simp
next
  case (6 s q t x k r c r1)
  then show ?case
    using skip_ws_Cons [of s q t] p_string_shorter [of t k r] skip_ws_Cons [of r c r1] by simp
next
  case (7 s q t x k r c r1 y v r2 d r3)
  then show ?case
    using skip_ws_Cons [of r2 d r3] by simp
qed


text \<open>
  \<open>JSON.parse\<close> on a string: the value, or the SyntaxError it throws. The wording of
  error messages is the engine's.
\<close>

definition JSON_parse :: "string \<Rightarrow> js_error + jsval" where
  "JSON_parse s =
     (case p_value s of
        None \<Rightarrow> Inl (SyntaxError ''Unexpected token in JSON'')
      | Some (v, r) \<Rightarrow>
          if skip_ws r = [] then Inr v else Inl (SyntaxError ''Unexpected token in JSON''))"

fun message :: "js_error \<Rightarrow> string" where
  "message (SyntaxError m) = m"
| "message (TypeError m) = m"

definition bind_err :: "'e + 'a \<Rightarrow> ('a \<Rightarrow> 'e + 'b) \<Rightarrow> 'e + 'b" where
  "bind_err r f = (case r of Inl e \<Rightarrow> Inl e | Inr v \<Rightarrow> f v)"

subsection \<open>Property access\<close>

text \<open>
  \<open>v.k\<close> for the property names the program reads (none of them is inherited from a
  prototype, apart from \<open>length\<close> on strings and arrays). Of two members with one key in
  a parsed object the later one counts.
\<close>

fun get_prop :: "jsval \<Rightarrow> string \<Rightarrow> js_error + jsval" where
  "get_prop JNull k =
     Inl (TypeError (''Cannot read properties of null (reading '' @ [CHR 0x27] @ k @ [CHR 0x27] @ '')''))"
| "get_prop JUndef k =
     Inl (TypeError (''Cannot read properties of undefined (reading '' @ [CHR 0x27] @ k @ [CHR 0x27] @ '')''))"
| "get_prop (JObj kvs) k = Inr (case map_of (rev kvs) k of None \<Rightarrow> JUndef | Some v \<Rightarrow> v)"
| "get_prop (JArr xs) k =
     Inr (if k = ''length'' then JNum (Fin (of_nat (length xs))) else JUndef)"
| "get_prop (JStr s) k =
     Inr (if k = ''length'' then JNum (Fin (of_nat (length s))) else JUndef)"
| "get_prop (JBool b) k = Inr JUndef"
| "get_prop (JNum n) k = Inr JUndef"

subsection \<open>parseInt on any value\<close>

text \<open>
  \<open>parseInt(v, 10)\<close> converts \<open>v\<close> to a string first. That conversion throws a TypeError
  on an object with an own \<open>toString\<close> member (no parsed value is callable), also inside
  an array, whose elements are joined.
\<close>

fun to_string_throws :: "jsval \<Rightarrow> bool"
  and any_to_string_throws :: "jsval list \<Rightarrow> bool"
where
  "to_string_throws (JObj kvs) = (map_of kvs ''toString'' \<noteq> None)"
| "to_string_throws (JArr xs) = any_to_string_throws xs"
| "to_string_throws JUndef = False"
| "to_string_throws JNull = False"
| "to_string_throws (JBool b) = False"
| "to_string_throws (JNum n) = False"
| "to_string_throws (JStr s) = False"
| "any_to_string_throws [] = False"
| "any_to_string_throws (x # xs) = (to_string_throws x \<or> any_to_string_throws xs)"

text \<open>The number of decimal digits of an integer that is not negative.\<close>

function ndigits :: "int \<Rightarrow> nat" where
  "ndigits n = (if n < 10 then 1 else Suc (ndigits (n div 10)))"
  by pat_completeness auto
termination
  by (relation "measure nat") auto

text \<open>The decimal exponent of a positive \<open>a\<close>: \<open>10 ^ ilog10 a \<le> a < 10 ^ (ilog10 a + 1)\<close>.\<close>

definition ilog10 :: "rat \<Rightarrow> int" where
  "ilog10 a =
     (if 1 \<le> a then int (ndigits \<lfloor>a\<rfloor>) - 1
      else
        (let d = ndigits \<lfloor>1 / a\<rfloor>
         in if 1 \<le> a * 10 ^ (d - 1) then - int (d - 1) else - int d))"

text \<open>\<open>a\<close> to \<open>k\<close> significant decimal digits: the digits \<open>s\<close> and the exponent \<open>e\<close> of \<open>s * 10 ^ e\<close>.\<close>

definition sig_digits :: "nat \<Rightarrow> rat \<Rightarrow> int \<times> int" where
  "sig_digits k a = (let e = ilog10 a - int k + 1 in (half_even (a / pow10 e), e))"

text \<open>
  The digits of the string of a positive number: the fewest significant digits that read
  back as the same double (17 always do).
\<close>

definition shortest :: "rat \<Rightarrow> int \<times> int" where
  "shortest a =
     (case filter (\<lambda>k. case sig_digits k a of (s, e) \<Rightarrow> dbl (of_int s * pow10 e) = Fin a)
             [1..<18] of
        [] \<Rightarrow> sig_digits 17 a
      | k # ks \<Rightarrow> sig_digits k a)"

text \<open>
  The integer that starts the decimal string of a number. With the decimal point after
  \<open>n\<close> digits, the string is in exponent notation for \<open>n\<close> above 21 or below \<open>-5\<close>, and
  this is its first digit; else it is the plain expansion, and this is its integer part.
\<close>

definition lead_int :: "rat \<Rightarrow> rat" where
  "lead_int a =
     (if a = 0 then 0
      else
        let (s, e) = shortest a;
            n = e + int (ndigits s)
        in if 21 < n \<or> n < - 5 then of_int (s div 10 ^ (ndigits s - 1))
           else if n \<le> 0 then 0
           else if 0 \<le> e then of_int s * 10 ^ nat e
           else of_int (s div 10 ^ nat (- e)))"

fun parseInt_num :: "jsnum \<Rightarrow> jsnum" where
  "parseInt_num (Fin q) = dbl (signed (q < 0) (lead_int \<bar>q\<bar>))"
| "parseInt_num PosInf = NaN"
| "parseInt_num NegInf = NaN"
| "parseInt_num NaN = NaN"

fun parseInt_any :: "jsval \<Rightarrow> jsnum" where
  "parseInt_any (JStr s) = parseInt s"
| "parseInt_any (JNum n) = parseInt_num n"
| "parseInt_any (JArr []) = NaN"
| "parseInt_any (JArr (x # xs)) = parseInt_any x"
| "parseInt_any JUndef = NaN"
| "parseInt_any JNull = NaN"
| "parseInt_any (JBool b) = NaN"
| "parseInt_any (JObj kvs) = NaN"

definition parseInt_val :: "jsval \<Rightarrow> js_error + jsnum" where
  "parseInt_val v =
     (if to_string_throws v then Inl (TypeError ''Cannot convert object to primitive value'')
      else Inr (parseInt_any v))"


section \<open>The bridge client (mpris/index.mjs)\<close>

text \<open>
  The external program is a parameter: \<open>exec w cmd\<close> runs the command line \<open>cmd\<close> in
  the world \<open>w\<close> and either resolves with its standard output or rejects (\<open>None\<close>:
  non-zero exit, program absent), and gives the world after the run. The bridge keeps the
  list of the command lines it has spawned.
\<close>

type_synonym 'w shell = "'w \<Rightarrow> string \<Rightarrow> string option \<times> 'w"

record 'w bridge =
  world :: 'w
  spawned :: "string list"

definition playerctl :: "'w shell \<Rightarrow> string \<Rightarrow> 'w bridge \<Rightarrow> string option \<times> 'w bridge" where
  "playerctl exec args st =
     (let cmd = ''playerctl '' @ args;
          (out, w') = exec (world st) cmd;
          st' = \<lparr>world = w', spawned = spawned st @ [cmd]\<rparr>
      in case out of
           Some stdout \<Rightarrow> (Some (trim stdout), st')
         | None \<Rightarrow> (None, st'))"

subsection \<open>The control routes\<close>

record response =
  status :: nat
  body :: jsval

definition res_json :: "jsval \<Rightarrow> response" where
  "res_json v = \<lparr>status = 200, body = v\<rparr>"

datatype control = PlayPause | Play | Pause | Next | Previous | Shuffle

fun control_args :: "control \<Rightarrow> string" where
  "control_args PlayPause = ''play-pause''"
| "control_args Play = ''play''"
| "control_args Pause = ''pause''"
| "control_args Next = ''next''"
| "control_args Previous = ''previous''"
| "control_args Shuffle = ''shuffle Toggle''"

definition post_control :: "'w shell \<Rightarrow> control \<Rightarrow> 'w bridge \<Rightarrow> response \<times> 'w bridge" where
  "post_control exec c st =
     (let (r, st') = playerctl exec (control_args c) st
      in (res_json (JObj [(''success'', JBool True)]), st'))"

subsection \<open>The loop route\<close>

definition modes :: "string list" where
  "modes = [''None'', ''Track'', ''Playlist'']"

text \<open>\<open>Array.prototype.indexOf\<close> on an array of strings; \<open>null\<close> is equal to none of them.\<close>

fun indexOf_from :: "int \<Rightarrow> string list \<Rightarrow> string option \<Rightarrow> int" where
  "indexOf_from i [] x = -1"
| "indexOf_from i (y # ys) x = (if x = Some y then i else indexOf_from (i + 1) ys x)"

definition indexOf :: "string list \<Rightarrow> string option \<Rightarrow> int" where
  "indexOf xs x = indexOf_from 0 xs x"

text \<open>The remainder \<open>a % b\<close> on integers, for a positive \<open>b\<close>: the sign is the dividend's.\<close>

definition js_rem :: "int \<Rightarrow> int \<Rightarrow> int" where
  "js_rem a b = (if a < 0 then - ((- a) mod b) else a mod b)"

text \<open>\<open>xs[i]\<close>: \<open>undefined\<close> (\<open>None\<close>) out of range.\<close>

definition array_at :: "'a list \<Rightarrow> int \<Rightarrow> 'a option" where
  "array_at xs i = (if 0 \<le> i \<and> i < int (length xs) then Some (xs ! nat i) else None)"

text \<open>A string or \<open>undefined\<close> inside a template literal, and as a value.\<close>

fun template :: "string option \<Rightarrow> string" where
  "template None = ''undefined''"
| "template (Some s) = s"

fun str_or_undef :: "string option \<Rightarrow> jsval" where
  "str_or_undef None = JUndef"
| "str_or_undef (Some s) = JStr s"

definition post_loop :: "'w shell \<Rightarrow> 'w bridge \<Rightarrow> response \<times> 'w bridge" where
  "post_loop exec st =
     (let (current, st1) = playerctl exec ''loop'' st;
          currentIndex = indexOf modes current;
          nextMode = array_at modes (js_rem (currentIndex + 1) (int (length modes)));
          (r, st2) = playerctl exec (''loop '' @ template nextMode) st1
      in (res_json (JObj [(''success'', JBool True), (''mode'', str_or_undef nextMode)]), st2))"

text \<open>The mode after \<open>m\<close> in the cycle None, Track, Playlist, None.\<close>

definition next_mode :: "string \<Rightarrow> string" where
  "next_mode m =
     (if m = ''None'' then ''Track'' else if m = ''Track'' then ''Playlist'' else ''None'')"

subsection \<open>getPlayerState\<close>

definition format :: string where
  \<open>format = ''{"title":"{{title}}","artist":"{{artist}}","album":"{{album}}","artUrl":"{{mpris:artUrl}}","position":"{{position}}","length":"{{mpris:length}}"}''\<close>

definition metadata_query :: string where
  "metadata_query = ''metadata --format '' @ [CHR 0x27] @ format @ [CHR 0x27]"

definition unavailable :: jsval where
  "unavailable = JObj [(''playing'', JBool False), (''available'', JBool False)]"

text \<open>\<open>!x\<close> for a string or \<open>null\<close>.\<close>

fun falsy_str :: "string option \<Rightarrow> bool" where
  "falsy_str None = True"
| "falsy_str (Some s) = (s = [])"

text \<open>The metadata of the inner \<open>catch\<close>: one process per field.\<close>

definition fallback_metadata :: "'w shell \<Rightarrow> 'w bridge \<Rightarrow> jsval \<times> 'w bridge" where
  "fallback_metadata exec st =
     (let (title, st1) = playerctl exec ''metadata title'' st;
          (artist, st2) = playerctl exec ''metadata artist'' st1;
          (album, st3) = playerctl exec ''metadata album'' st2;
          (artUrl, st4) = playerctl exec ''metadata mpris:artUrl'' st3
      in (JObj [(''title'', JStr (or_str title ''Unknown'')),
                (''artist'', JStr (or_str artist ''Unknown'')),
                (''album'', JStr (or_str album [])),
                (''artUrl'', JStr (or_str artUrl []))], st4))"

text \<open>The object of the final \<open>return\<close>.\<close>

definition state_object ::
  "bool \<Rightarrow> jsval \<Rightarrow> jsnum \<Rightarrow> jsnum \<Rightarrow> string option \<Rightarrow> string option \<Rightarrow> js_error + jsval" where
  "state_object isPlaying metadata positionSec lengthUs shuffleStatus loopStatus =
     bind_err (get_prop metadata ''title'') (\<lambda>title.
     bind_err (get_prop metadata ''artist'') (\<lambda>artist.
     bind_err (get_prop metadata ''album'') (\<lambda>album.
     bind_err (get_prop metadata ''artUrl'') (\<lambda>artUrl.
       Inr (JObj [(''available'', JBool True),
                  (''playing'', JBool isPlaying),
                  (''title'', js_or title (JStr ''Unknown'')),
                  (''artist'', js_or artist (JStr ''Unknown'')),
                  (''album'', js_or album (JStr [])),
                  (''artUrl'', js_or artUrl (JStr [])),
                  (''progress_ms'', JNum (Math_floor (num_mul positionSec (Fin 1000)))),
                  (''duration_ms'', JNum (Math_floor (num_div lengthUs (Fin 1000)))),
                  (''shuffle'', JBool (shuffleStatus = Some ''On'')),
                  (''loop'', JStr (or_str loopStatus ''None''))])))))"

text \<open>The body of the outer \<open>try\<close>: the state, or what is thrown.\<close>

definition player_state_try :: "'w shell \<Rightarrow> 'w bridge \<Rightarrow> (js_error + jsval) \<times> 'w bridge" where
  "player_state_try exec st =
     (let (metadataRaw, st1) = playerctl exec metadata_query st
      in if falsy_str metadataRaw then (Inr unavailable, st1)
         else
           let (status, st2) = playerctl exec ''status'' st1;
               isPlaying = (status = Some ''Playing'');
               (metadata, st3) =
                 (case JSON_parse (or_str metadataRaw []) of
                    Inr v \<Rightarrow> (v, st2)
                  | Inl e \<Rightarrow> fallback_metadata exec st2);
               (pos, st4) = playerctl exec ''position'' st3;
               positionSec = parseFloat (or_str pos ''0'')
           in case bind_err (get_prop metadata ''length'')
                     (\<lambda>len. parseInt_val (js_or len (JStr ''0''))) of
                Inl e \<Rightarrow> (Inl e, st4)
              | Inr lengthUs \<Rightarrow>
                  let (shuffleStatus, st5) = playerctl exec ''shuffle'' st4;
                      (loopStatus, st6) = playerctl exec ''loop'' st5
                  in (state_object isPlaying metadata positionSec lengthUs
                        shuffleStatus loopStatus, st6))"

definition getPlayerState :: "'w shell \<Rightarrow> 'w bridge \<Rightarrow> jsval \<times> 'w bridge" where
  "getPlayerState exec st =
     (case player_state_try exec st of
        (Inr state, st') \<Rightarrow> (state, st')
      | (Inl error, st') \<Rightarrow>
          (JObj [(''playing'', JBool False), (''available'', JBool False),
                 (''error'', JStr (message error))], st'))"

definition get_status :: "'w shell \<Rightarrow> 'w bridge \<Rightarrow> response \<times> 'w bridge" where
  "get_status exec st = (let (state, st') = getPlayerState exec st in (res_json state, st'))"

subsection \<open>A value over the wire\<close>

text \<open>
  What the client parses from the JSON text the server sends for a value: a number that
  is not finite becomes \<open>null\<close>, an \<open>undefined\<close> member is left out, an \<open>undefined\<close>
  element becomes \<open>null\<close>.
\<close>

fun wire :: "jsval \<Rightarrow> jsval"
  and wire_elements :: "jsval list \<Rightarrow> jsval list"
  and wire_members :: "(string \<times> jsval) list \<Rightarrow> (string \<times> jsval) list"
where
  "wire JUndef = JNull"
| "wire JNull = JNull"
| "wire (JBool b) = JBool b"
| "wire (JNum (Fin q)) = JNum (Fin q)"
| "wire (JNum PosInf) = JNull"
| "wire (JNum NegInf) = JNull"
| "wire (JNum NaN) = JNull"
| "wire (JStr s) = JStr s"
| "wire (JArr xs) = JArr (wire_elements xs)"
| "wire (JObj kvs) = JObj (wire_members kvs)"
| "wire_elements [] = []"
| "wire_elements (x # xs) = wire x # wire_elements xs"
| "wire_members [] = []"
| "wire_members ((k, v) # kvs) =
     (if v = JUndef then wire_members kvs else (k, wire v) # wire_members kvs)"


section \<open>The client (index.js)\<close>

subsection \<open>Settings, notices and the token endpoint\<close>

record settings =
  clientId :: string
  accessToken :: string
  refreshToken :: string
  tokenExpiry :: jsnum
  enablePanel :: bool
  useMpris :: bool

datatype level = Info | Success | Warning | Failure

text \<open>
  The client: its settings, the notices shown to the user (\<open>toastr\<close>), the refresh
  requests posted to the token endpoint, each with its \<open>client_id\<close> and
  \<open>refresh_token\<close>, and the number of times the settings were saved.
\<close>

record client =
  settings :: settings
  notices :: "(level \<times> string) list"
  refresh_posts :: "(string \<times> string) list"
  saves :: nat

text \<open>
  A reply of the token endpoint, read at its type: an absent or empty field is the empty
  string, an absent \<open>expires_in\<close> is \<open>NaN\<close> (\<open>undefined * 1000\<close>). \<open>NoData\<close> is a
  request or a body that fails (the \<open>catch\<close> branch).
\<close>

record token_data =
  access_token :: string
  refresh_token :: string
  expires_in :: jsnum

datatype token_reply = NoData | Data token_data

text \<open>An HTTP reply: none (\<open>fetch\<close> rejects), or a status and the body \<open>json()\<close> parses, if it does.\<close>

datatype http_reply = NoReply | Reply nat "jsval option"

definition ok :: "nat \<Rightarrow> bool" where
  "ok st = (200 \<le> st \<and> st \<le> 299)"

text \<open>
  The surroundings of one call: \<open>Date.now()\<close> when the accessor tests the expiry and
  when a refresh reply is handled, the token endpoint, the remote API by bearer token,
  and the reply of the local plugin's status route.
\<close>

record env =
  clock :: int
  refresh_clock :: int
  token_endpoint :: "string \<times> string \<Rightarrow> token_reply"
  player_api :: "string \<Rightarrow> http_reply"
  plugin_status :: http_reply

definition session_expired :: "level \<times> string" where
  "session_expired = (Warning, ''Spotify session expired. Please reconnect.'')"

definition refreshAccessToken :: "env \<Rightarrow> client \<Rightarrow> bool \<times> client" where
  "refreshAccessToken e c =
     (let s = settings c
      in if refreshToken s = [] \<or> clientId s = [] then (False, c)
         else
           let req = (clientId s, refreshToken s);
               c1 = c\<lparr>refresh_posts := refresh_posts c @ [req]\<rparr>
           in case token_endpoint e req of
                NoData \<Rightarrow> (False, c1)
              | Data d \<Rightarrow>
                  if access_token d \<noteq> [] then
                    (True,
                     c1\<lparr>settings :=
                          s\<lparr>accessToken := access_token d,
                            refreshToken :=
                              (if refresh_token d \<noteq> [] then refresh_token d else refreshToken s),
                            tokenExpiry :=
                              js_add (Fin (of_int (refresh_clock e)))
                                (js_mul (expires_in d) (Fin 1000))\<rparr>,
                        saves := Suc (saves c)\<rparr>)
                  else (False, c1\<lparr>notices := notices c @ [session_expired]\<rparr>))"

definition getValidToken :: "env \<Rightarrow> client \<Rightarrow> string option \<times> client" where
  "getValidToken e c =
     (if accessToken (settings c) = [] then (None, c)
      else if js_gt (Fin (of_int (clock e))) (js_sub (tokenExpiry (settings c)) (Fin 60000)) then
        (case refreshAccessToken e c of
           (True, c') \<Rightarrow> (Some (accessToken (settings c')), c')
         | (False, c') \<Rightarrow> (None, c'))
      else (Some (accessToken (settings c)), c))"

subsection \<open>Fetching the player state\<close>

text \<open>The object \<open>fetchMprisState\<close> builds from the plugin's data, or what is thrown.\<close>

definition mpris_state :: "jsval \<Rightarrow> js_error + jsval" where
  "mpris_state data =
     bind_err (get_prop data ''available'') (\<lambda>available.
       if \<not> truthy available then Inr JNull
       else
         bind_err (get_prop data ''playing'') (\<lambda>playing.
         bind_err (get_prop data ''title'') (\<lambda>title.
         bind_err (get_prop data ''artist'') (\<lambda>artist.
         bind_err (get_prop data ''artUrl'') (\<lambda>artUrl.
         bind_err (get_prop data ''duration_ms'') (\<lambda>duration_ms.
         bind_err (get_prop data ''progress_ms'') (\<lambda>progress_ms.
         bind_err (get_prop data ''shuffle'') (\<lambda>shuffle.
         bind_err (get_prop data ''loop'') (\<lambda>loop.
           Inr (JObj
             [(''is_playing'', playing),
              (''item'', JObj
                 [(''name'', title),
                  (''artists'', JArr [JObj [(''name'', artist)]]),
                  (''album'', JObj
                     [(''images'',
                       if truthy artUrl then JArr [JObj [(''url'', artUrl)]] else JArr [])]),
                  (''duration_ms'', js_or duration_ms (JNum (Fin 0)))]),
              (''progress_ms'', js_or progress_ms (JNum (Fin 0))),
              (''shuffle'', js_or shuffle (JBool False)),
              (''loop'', js_or loop (JStr ''None''))]))))))))))"

definition fetchMprisState :: "http_reply \<Rightarrow> jsval" where
  "fetchMprisState r =
     (case r of
        NoReply \<Rightarrow> JNull
      | Reply st b \<Rightarrow>
          if \<not> ok st then JNull
          else (case b of
                  None \<Rightarrow> JNull
                | Some data \<Rightarrow> (case mpris_state data of Inl err \<Rightarrow> JNull | Inr v \<Rightarrow> v)))"

definition fetchPlayerState :: "env \<Rightarrow> client \<Rightarrow> jsval \<times> client" where
  "fetchPlayerState e c =
     (if useMpris (settings c) then (fetchMprisState (plugin_status e), c)
      else
        let (token, c') = getValidToken e c
        in if falsy_str token then (JNull, c')
           else
             (case player_api e (or_str token []) of
                NoReply \<Rightarrow> (JNull, c')
              | Reply st b \<Rightarrow>
                  if st = 204 then (JNull, c')
                  else if st \<noteq> 200 then (JNull, c')
                  else (case b of None \<Rightarrow> (JNull, c') | Some v \<Rightarrow> (v, c'))))"

text \<open>What the client receives for a response of the plugin.\<close>

definition served :: "response \<Rightarrow> http_reply" where
  "served r = Reply (status r) (Some (wire (body r)))"


subsection \<open>The progress bar\<close>

text \<open>
  The part of the panel the progress block of \<open>updatePlayerUI\<close> writes: the width of the
  bar in percent (\<open>None\<close>: never set) and the duration kept for seeking. The time labels,
  which the same block sets through \<open>formatTime\<close>, are left out.
\<close>

record panel =
  bar_width :: "jsnum option"
  kept_duration :: jsnum

definition fresh_panel :: panel where
  "fresh_panel = \<lparr>bar_width = None, kept_duration = Fin 0\<rparr>"

text \<open>The block, for a panel with its bar: \<open>progress_ms\<close> and \<open>duration_ms\<close> are numbers.\<close>

definition update_progress :: "jsnum \<Rightarrow> jsnum \<Rightarrow> panel \<Rightarrow> panel" where
  "update_progress progress_ms duration_ms p =
     (if truthy_num duration_ms then
        p\<lparr>bar_width := Some (js_mul (js_div progress_ms duration_ms) (Fin 100)),
          kept_duration := duration_ms\<rparr>
      else p)"

subsection \<open>Polling\<close>

text \<open>
  The page: the variable \<open>pollingInterval\<close>, the live intervals whose callback is
  \<open>updatePlayerUI\<close>, the last timer id the browser has handed out (ids are positive
  and never reused), the setting \<open>enablePanel\<close>, whether the panel is in the document,
  the number of calls of \<open>updatePlayerUI\<close> so far, the number of those calls that
  await their fetch, and the number of renders (calls that came back from the fetch and
  wrote to the panel).
\<close>

record page =
  pollingInterval :: "nat option"
  intervals :: "nat list"
  last_id :: nat
  panel_enabled :: bool
  panel_present :: bool
  ui_calls :: nat
  in_flight :: nat
  renders :: nat

definition fresh_page :: "nat \<Rightarrow> bool \<Rightarrow> page" where
  "fresh_page n b =
     \<lparr>pollingInterval = None, intervals = [], last_id = n, panel_enabled = b,
      panel_present = False, ui_calls = 0, in_flight = 0, renders = 0\<rparr>"

definition setInterval :: "page \<Rightarrow> nat \<times> page" where
  "setInterval pg =
     (let i = Suc (last_id pg) in (i, pg\<lparr>intervals := intervals pg @ [i], last_id := i\<rparr>))"

definition clearInterval :: "nat \<Rightarrow> page \<Rightarrow> page" where
  "clearInterval i pg = pg\<lparr>intervals := removeAll i (intervals pg)\<rparr>"

text \<open>\<open>if (pollingInterval) clearInterval(pollingInterval)\<close>: \<open>null\<close> and 0 are falsy.\<close>

definition clear_polling :: "page \<Rightarrow> page" where
  "clear_polling pg =
     (case pollingInterval pg of
        None \<Rightarrow> pg
      | Some i \<Rightarrow> if i \<noteq> 0 then clearInterval i pg else pg)"

definition removePlayerPanel :: "page \<Rightarrow> page" where
  "removePlayerPanel pg = pg\<lparr>panel_present := False\<rparr>"

text \<open>
  \<open>updatePlayerUI\<close> is asynchronous. A call runs up to \<open>await fetchPlayerState()\<close>:
  with the panel disabled it removes the panel and returns, otherwise it creates the
  panel if it is missing and awaits the fetch.
\<close>

definition updatePlayerUI :: "page \<Rightarrow> page" where
  "updatePlayerUI pg =
     (if \<not> panel_enabled pg then
        (removePlayerPanel pg)\<lparr>ui_calls := Suc (ui_calls pg)\<rparr>
      else
        pg\<lparr>panel_present := True, ui_calls := Suc (ui_calls pg),
          in_flight := Suc (in_flight pg)\<rparr>)"

text \<open>
  The fetch of a call in flight resolves and the rest of \<open>updatePlayerUI\<close> runs: it
  writes the state (or Not Playing) to the elements of the panel it finds, so it renders
  when the panel is in the document.
\<close>

definition fetch_resolves :: "page \<Rightarrow> page" where
  "fetch_resolves pg =
     (if in_flight pg = 0 then pg
      else pg\<lparr>in_flight := in_flight pg - 1,
              renders := (if panel_present pg then Suc (renders pg) else renders pg)\<rparr>)"

definition startPolling :: "page \<Rightarrow> page" where
  "startPolling pg =
     (let (i, pg') = setInterval (clear_polling pg)
      in updatePlayerUI (pg'\<lparr>pollingInterval := Some i\<rparr>))"

definition stopPolling :: "page \<Rightarrow> page" where
  "stopPolling pg = (clear_polling pg)\<lparr>pollingInterval := None\<rparr>"

text \<open>One period (a second) passes: every live interval calls \<open>updatePlayerUI\<close> once.\<close>

definition second_passes :: "page \<Rightarrow> page" where
  "second_passes pg = (updatePlayerUI ^^ length (intervals pg)) pg"

text \<open>Another part of the page takes a timer (the menu button's retry interval).\<close>

definition other_timer :: "page \<Rightarrow> page" where
  "other_timer pg = pg\<lparr>last_id := Suc (last_id pg)\<rparr>"

text \<open>
  What can happen to the page: the scheduler starts or stops, a second passes, a timer
  is taken elsewhere, a fetch resolves, the panel is removed, the setting changes, and a
  handler calls \<open>updatePlayerUI\<close> itself.
\<close>

datatype event = Start | Stop | Second | OtherTimer | Resolve | RemovePanel | Enable bool | Update

fun step :: "event \<Rightarrow> page \<Rightarrow> page" where
  "step Start pg = startPolling pg"
| "step Stop pg = stopPolling pg"
| "step Second pg = second_passes pg"
| "step OtherTimer pg = other_timer pg"
| "step Resolve pg = fetch_resolves pg"
| "step RemovePanel pg = removePlayerPanel pg"
| "step (Enable b) pg = pg\<lparr>panel_enabled := b\<rparr>"
| "step Update pg = updatePlayerUI pg"

fun run :: "event list \<Rightarrow> page \<Rightarrow> page" where
  "run [] pg = pg"
| "run (ev # evs) pg = run evs (step ev pg)"

text \<open>The scheduler's invariant: the live polling intervals are exactly the one held.\<close>

definition tidy :: "page \<Rightarrow> bool" where
  "tidy pg =
     (case pollingInterval pg of
        None \<Rightarrow> intervals pg = []
      | Some i \<Rightarrow> intervals pg = [i] \<and> 0 < i \<and> i \<le> last_id pg)"

section \<open>The external program, as the interface describes it\<close>

text \<open>
  Modelled from the spec: the external program \<open>playerctl\<close> at the boundary of the
  interface section (status, position, shuffle, loop get and set, metadata), which is
  not part of the repository. The world is the running player, or \<open>None\<close> when no
  player runs or the program is absent: every command then exits non-zero.
\<close>

record player =
  p_title :: string
  p_artist :: string
  p_album :: string
  p_artUrl :: string
  p_position_us :: string
  p_position :: string
  p_length :: string
  p_status :: string
  p_shuffle :: bool
  p_loop :: string

definition line :: "string \<Rightarrow> string" where
  "line s = s @ [CHR 0x0A]"

definition formatted :: "player \<Rightarrow> string" where
  \<open>formatted p =
     ''{"title":"'' @ p_title p @ ''","artist":"'' @ p_artist p @ ''","album":"'' @ p_album p
     @ ''","artUrl":"'' @ p_artUrl p @ ''","position":"'' @ p_position_us p
     @ ''","length":"'' @ p_length p @ ''"}''\<close>

definition tool :: "player option shell" where
  "tool w cmd =
     (case w of
        None \<Rightarrow> (None, None)
      | Some p \<Rightarrow>
          if cmd = ''playerctl '' @ metadata_query then (Some (line (formatted p)), w)
          else if cmd = ''playerctl metadata title'' then (Some (line (p_title p)), w)
          else if cmd = ''playerctl metadata artist'' then (Some (line (p_artist p)), w)
          else if cmd = ''playerctl metadata album'' then (Some (line (p_album p)), w)
          else if cmd = ''playerctl metadata mpris:artUrl'' then (Some (line (p_artUrl p)), w)
          else if cmd = ''playerctl status'' then (Some (line (p_status p)), w)
          else if cmd = ''playerctl position'' then (Some (line (p_position p)), w)
          else if cmd = ''playerctl shuffle'' then
            (Some (line (if p_shuffle p then ''On'' else ''Off'')), w)
          else if cmd = ''playerctl shuffle Toggle'' then
            (Some [], Some (p\<lparr>p_shuffle := \<not> p_shuffle p\<rparr>))
          else if cmd = ''playerctl loop'' then (Some (line (p_loop p)), w)
          else if cmd = ''playerctl loop None'' then (Some [], Some (p\<lparr>p_loop := ''None''\<rparr>))
          else if cmd = ''playerctl loop Track'' then (Some [], Some (p\<lparr>p_loop := ''Track''\<rparr>))
          else if cmd = ''playerctl loop Playlist'' then
            (Some [], Some (p\<lparr>p_loop := ''Playlist''\<rparr>))
          else if cmd = ''playerctl play'' then (Some [], Some (p\<lparr>p_status := ''Playing''\<rparr>))
          else if cmd = ''playerctl pause'' then (Some [], Some (p\<lparr>p_status := ''Paused''\<rparr>))
          else if cmd = ''playerctl play-pause'' then
            (Some [], Some (p\<lparr>p_status := (if p_status p = ''Playing'' then ''Paused'' else ''Playing'')\<rparr>))
          else if cmd = ''playerctl next'' \<or> cmd = ''playerctl previous'' then (Some [], w)
          else (None, w))"

definition song_a :: player where
  "song_a = \<lparr>p_title = ''Song A'', p_artist = ''Band'', p_album = '''', p_artUrl = '''',
     p_position_us = ''30000000'', p_position = ''30.0'', p_length = ''200000000'',
     p_status = ''Playing'', p_shuffle = False, p_loop = ''None''\<rparr>"

definition start :: "'w \<Rightarrow> 'w bridge" where
  "start w = \<lparr>world = w, spawned = []\<rparr>"

text \<open>The program is absent: every run rejects.\<close>

definition absent :: "'w shell" where
  "absent w cmd = (None, w)"

section \<open>Notions used in the statements, and examples\<close>

text \<open>
  What the loop route issues after reading \<open>cur\<close>: the next mode of the cycle for a
  mode of the cycle, and \<open>None\<close> for anything else.
\<close>

definition successor :: "string option \<Rightarrow> string" where
  "successor cur =
     (case cur of
        None \<Rightarrow> ''None''
      | Some c \<Rightarrow> if c = ''None'' \<or> c = ''Track'' \<or> c = ''Playlist'' then next_mode c else ''None'')"

text \<open>\<open>k\<close> periods pass.\<close>

fun seconds :: "nat \<Rightarrow> page \<Rightarrow> page" where
  "seconds 0 pg = pg"
| "seconds (Suc k) pg = seconds k (second_passes pg)"

text \<open>Seconds pass (\<open>True\<close>) and fetches resolve (\<open>False\<close>), in any order.\<close>

fun later :: "bool list \<Rightarrow> page \<Rightarrow> page" where
  "later [] pg = pg"
| "later (b # bs) pg = later bs (if b then second_passes pg else fetch_resolves pg)"

text \<open>The bridge after the queries \<open>qs\<close>, made in this order.\<close>

fun after :: "'w shell \<Rightarrow> string list \<Rightarrow> 'w bridge \<Rightarrow> 'w bridge" where
  "after exec [] st = st"
| "after exec (q # qs) st = after exec qs (snd (playerctl exec q st))"

text \<open>What the query number \<open>k\<close> of \<open>qs\<close> returns, made after the ones before it.\<close>

definition answer :: "'w shell \<Rightarrow> string list \<Rightarrow> nat \<Rightarrow> 'w bridge \<Rightarrow> string option" where
  "answer exec qs k st = fst (playerctl exec (qs ! k) (after exec (take k qs) st))"

text \<open>The queries of \<open>getPlayerState\<close> when the structured output is not JSON.\<close>

definition fallback_queries :: "string list" where
  "fallback_queries =
     [metadata_query, ''status'', ''metadata title'', ''metadata artist'', ''metadata album'',
      ''metadata mpris:artUrl'', ''position'', ''shuffle'', ''loop'']"

text \<open>
  The clamped ratio of the specification, in the spec's words: a width that is a
  percentage between 0 and 100.
\<close>

fun clamped :: "jsnum option \<Rightarrow> bool" where
  "clamped (Some (Fin x)) = (0 \<le> x \<and> x \<le> 100)"
| "clamped (Some PosInf) = False"
| "clamped (Some NegInf) = False"
| "clamped (Some NaN) = False"
| "clamped None = False"

text \<open>A client that holds tokens, for the examples.\<close>

definition signed_in :: "int \<Rightarrow> client" where
  "signed_in expiry =
     \<lparr>settings = \<lparr>clientId = ''app'', accessToken = ''tok1'', refreshToken = ''ref1'',
        tokenExpiry = Fin (of_int expiry), enablePanel = True, useMpris = False\<rparr>,
      notices = [], refresh_posts = [], saves = 0\<rparr>"

text \<open>A token endpoint that rejects every refresh, and one that grants \<open>tok2\<close>.\<close>

definition rejecting :: "string \<times> string \<Rightarrow> token_reply" where
  "rejecting req = Data \<lparr>access_token = [], refresh_token = [], expires_in = NaN\<rparr>"

definition granting :: "string \<times> string \<Rightarrow> token_reply" where
  "granting req = Data \<lparr>access_token = ''tok2'', refresh_token = [], expires_in = Fin 3600\<rparr>"

definition env_at :: "int \<Rightarrow> (string \<times> string \<Rightarrow> token_reply) \<Rightarrow> env" where
  "env_at now ep =
     \<lparr>clock = now, refresh_clock = now, token_endpoint = ep,
      player_api = (\<lambda>t. Reply 204 None), plugin_status = NoReply\<rparr>"

text \<open>A player whose title holds quote characters.\<close>

definition say_hi :: player where
  \<open>say_hi = song_a\<lparr>p_title := ''Say "Hi"''\<rparr>\<close>

text \<open>A client in local mode, and the surroundings in which the plugin answers for a bridge.\<close>

definition local_client :: client where
  "local_client =
     \<lparr>settings = \<lparr>clientId = [], accessToken = [], refreshToken = [],
        tokenExpiry = Fin 0, enablePanel = True, useMpris = True\<rparr>,
      notices = [], refresh_posts = [], saves = 0\<rparr>"

definition env_plugin :: "http_reply \<Rightarrow> env" where
  "env_plugin r =
     \<lparr>clock = 0, refresh_clock = 0, token_endpoint = (\<lambda>req. NoData),
      player_api = (\<lambda>t. NoReply), plugin_status = r\<rparr>"

section \<open>Properties of the control routes\<close>

lemma playerctl_spawned:
  "spawned (snd (playerctl exec args st)) = spawned st @ [''playerctl '' @ args]"
  by (simp add: playerctl_def Let_def split: prod.splits option.splits)

lemma playerctl_spawnedD:
  "playerctl exec args st = (r, st') \<Longrightarrow> spawned st' = spawned st @ [''playerctl '' @ args]"
  using playerctl_spawned [of exec args st] by simp

lemma playerctl_absent: "fst (playerctl absent args st) = None"
  by (simp add: playerctl_def absent_def)

lemma playerctl_tool_none: "fst (playerctl tool args (start None)) = None"
  by (simp add: playerctl_def tool_def start_def)

text \<open>
  C9. Each of the six POST control endpoints (play-pause, play, pause, next, previous,
  shuffle) answers HTTP 200 with the body \<open>{success: true}\<close> whatever the external
  program does: the answer is the same when the program is absent, so a caller cannot
  tell a delivered command from an undelivered one.
\<close>

theorem control_routes_hide_failure:
  "fst (post_control exec c st) = \<lparr>status = 200, body = JObj [(''success'', JBool True)]\<rparr>
   \<and> fst (playerctl absent (control_args c) st) = None
   \<and> fst (post_control absent c st) = fst (post_control exec c st)"
  by (simp add: post_control_def res_json_def playerctl_absent split: prod.splits)

lemma indexOf_modes:
  "indexOf modes cur =
     (if cur = Some ''None'' then 0 else if cur = Some ''Track'' then 1
      else if cur = Some ''Playlist'' then 2 else -1)"
  by (simp add: indexOf_def modes_def)

lemma nextMode_eq:
  "array_at modes (js_rem (indexOf modes cur + 1) (int (length modes))) = Some (successor cur)"
proof -
  have len: "int (length modes) = 3" by (simp add: modes_def)
  consider "cur = Some ''None''" | "cur = Some ''Track''" | "cur = Some ''Playlist''"
    | "cur \<noteq> Some ''None''" "cur \<noteq> Some ''Track''" "cur \<noteq> Some ''Playlist''"
    by blast
  then show ?thesis
  proof cases
    case 1
    then have "indexOf modes cur = 0" by (simp add: indexOf_modes)
    with 1 show ?thesis
      by (simp add: len js_rem_def array_at_def successor_def next_mode_def) (simp add: modes_def)
  next
    case 2
    then have "indexOf modes cur = 1" by (simp add: indexOf_modes)
    with 2 show ?thesis
      by (simp add: len js_rem_def array_at_def successor_def next_mode_def) (simp add: modes_def)
  next
    case 3
    then have "indexOf modes cur = 2" by (simp add: indexOf_modes)
    with 3 show ?thesis
      by (simp add: len js_rem_def array_at_def successor_def next_mode_def) (simp add: modes_def)
  next
    case 4
    then have "indexOf modes cur = -1" by (simp add: indexOf_modes)
    moreover from 4 have "successor cur = ''None''"
      by (cases cur) (auto simp add: successor_def)
    ultimately show ?thesis
      by (simp add: len js_rem_def array_at_def) (simp add: modes_def)
  qed
qed

lemma post_loop_eq:
  "post_loop exec st =
    (let (current, st1) = playerctl exec ''loop'' st;
         (r, st2) = playerctl exec (''loop '' @ successor current) st1
     in (res_json (JObj [(''success'', JBool True), (''mode'', JStr (successor current))]), st2))"
  by (simp add: post_loop_def nextMode_eq Let_def split: prod.splits)

lemma post_loop_response:
  "fst (post_loop exec st) =
     \<lparr>status = 200,
      body = JObj [(''success'', JBool True),
                   (''mode'', JStr (successor (fst (playerctl exec ''loop'' st))))]\<rparr>"
  by (simp add: post_loop_eq res_json_def Let_def split: prod.splits)

lemma post_loop_spawned:
  "spawned (snd (post_loop exec st)) =
     spawned st @ [''playerctl loop'',
                   ''playerctl loop '' @ successor (fst (playerctl exec ''loop'' st))]"
  by (auto simp add: post_loop_eq Let_def split: prod.splits dest!: playerctl_spawnedD)

text \<open>
  C10. When the read of the current loop mode fails (\<open>null\<close>) or gives a value outside
  None, Track, Playlist, the index lookup gives \<open>-1\<close>, the route issues the absolute
  mode \<open>None\<close> and answers \<open>{success: true, mode: "None"}\<close>.
\<close>

theorem loop_read_failure_issues_None:
  assumes "fst (playerctl exec ''loop'' st) \<notin> {Some ''None'', Some ''Track'', Some ''Playlist''}"
  shows "indexOf modes (fst (playerctl exec ''loop'' st)) = -1
    \<and> fst (post_loop exec st) =
        \<lparr>status = 200, body = JObj [(''success'', JBool True), (''mode'', JStr ''None'')]\<rparr>
    \<and> spawned (snd (post_loop exec st)) =
        spawned st @ [''playerctl loop'', ''playerctl loop None'']"
proof -
  let ?cur = "fst (playerctl exec ''loop'' st)"
  from assms have ne: "?cur \<noteq> Some ''None''" "?cur \<noteq> Some ''Track''" "?cur \<noteq> Some ''Playlist''"
    by auto
  then have idx: "indexOf modes ?cur = -1" by (simp add: indexOf_modes)
  from ne have suc: "successor ?cur = ''None''"
    by (cases ?cur) (auto simp add: successor_def)
  show ?thesis
    using idx suc by (simp add: post_loop_response post_loop_spawned)
qed

theorem loop_read_failure_issues_None_witness:
  "fst (playerctl tool ''loop'' (start None)) \<notin> {Some ''None'', Some ''Track'', Some ''Playlist''}
   \<and> fst (post_loop tool (start None)) =
        \<lparr>status = 200, body = JObj [(''success'', JBool True), (''mode'', JStr ''None'')]\<rparr>
   \<and> spawned (snd (post_loop tool (start None))) = [''playerctl loop'', ''playerctl loop None'']"
proof -
  have h: "fst (playerctl tool ''loop'' (start None)) \<notin> {Some ''None'', Some ''Track'', Some ''Playlist''}"
    by (simp add: playerctl_tool_none)
  show ?thesis
    using h loop_read_failure_issues_None [OF h] by (simp add: start_def)
qed

lemma successor_mode: "m \<in> set modes \<Longrightarrow> successor (Some m) = next_mode m"
  by (auto simp add: successor_def modes_def)

text \<open>
  C6. For a current mode of the cycle, the loop route first reads the mode and then issues
  the absolute next mode of None, Track, Playlist, None, and answers with it. Three
  consecutive calls from the mode None, each read returning the mode in force, issue
  Track, Playlist, None.
\<close>

theorem cycle_repeat_absolute:
  "(fst (playerctl exec ''loop'' st) = Some m \<and> m \<in> set modes \<longrightarrow>
      spawned (snd (post_loop exec st)) =
        spawned st @ [''playerctl loop'', ''playerctl loop '' @ next_mode m]
      \<and> body (fst (post_loop exec st)) =
        JObj [(''success'', JBool True), (''mode'', JStr (next_mode m))])
   \<and> (fst (playerctl exec ''loop'' st) = Some ''None''
      \<and> fst (playerctl exec ''loop'' (snd (post_loop exec st))) = Some ''Track''
      \<and> fst (playerctl exec ''loop'' (snd (post_loop exec (snd (post_loop exec st))))) = Some ''Playlist''
      \<longrightarrow>
      spawned (snd (post_loop exec (snd (post_loop exec (snd (post_loop exec st)))))) =
        spawned st @ [''playerctl loop'', ''playerctl loop Track'',
                      ''playerctl loop'', ''playerctl loop Playlist'',
                      ''playerctl loop'', ''playerctl loop None''])"
proof (intro conjI impI)
  assume a: "fst (playerctl exec ''loop'' st) = Some m \<and> m \<in> set modes"
  then show "spawned (snd (post_loop exec st)) =
        spawned st @ [''playerctl loop'', ''playerctl loop '' @ next_mode m]"
    by (simp add: post_loop_spawned successor_mode)
  from a show "body (fst (post_loop exec st)) =
        JObj [(''success'', JBool True), (''mode'', JStr (next_mode m))]"
    by (simp add: post_loop_response successor_mode)
next
  assume a: "fst (playerctl exec ''loop'' st) = Some ''None''
      \<and> fst (playerctl exec ''loop'' (snd (post_loop exec st))) = Some ''Track''
      \<and> fst (playerctl exec ''loop'' (snd (post_loop exec (snd (post_loop exec st))))) = Some ''Playlist''"
  have s: "successor (Some ''None'') = ''Track''" "successor (Some ''Track'') = ''Playlist''"
    "successor (Some ''Playlist'') = ''None''"
    by (simp_all add: successor_def next_mode_def)
  from a show "spawned (snd (post_loop exec (snd (post_loop exec (snd (post_loop exec st)))))) =
        spawned st @ [''playerctl loop'', ''playerctl loop Track'',
                      ''playerctl loop'', ''playerctl loop Playlist'',
                      ''playerctl loop'', ''playerctl loop None'']"
    by (simp add: post_loop_spawned s)
qed


theorem cycle_repeat_absolute_witness:
  "fst (playerctl tool ''loop'' (start (Some song_a))) = Some ''None''
   \<and> ''None'' \<in> set modes
   \<and> fst (playerctl tool ''loop'' (snd (post_loop tool (start (Some song_a))))) = Some ''Track''
   \<and> fst (playerctl tool ''loop''
         (snd (post_loop tool (snd (post_loop tool (start (Some song_a))))))) = Some ''Playlist''
   \<and> spawned (snd (post_loop tool (start (Some song_a)))) =
         [''playerctl loop'', ''playerctl loop Track'']
   \<and> spawned (snd (post_loop tool (snd (post_loop tool (snd (post_loop tool
         (start (Some song_a)))))))) =
         [''playerctl loop'', ''playerctl loop Track'',
          ''playerctl loop'', ''playerctl loop Playlist'',
          ''playerctl loop'', ''playerctl loop None'']"
proof -
  have h1: "fst (playerctl tool ''loop'' (start (Some song_a))) = Some ''None''"
    by code_simp
  have h0: "''None'' \<in> set modes"
    by (simp add: modes_def)
  have h2: "fst (playerctl tool ''loop'' (snd (post_loop tool (start (Some song_a))))) = Some ''Track''"
    by code_simp
  have h3: "fst (playerctl tool ''loop''
         (snd (post_loop tool (snd (post_loop tool (start (Some song_a))))))) = Some ''Playlist''"
    by code_simp
  have n: "next_mode ''None'' = ''Track''"
    by (simp add: next_mode_def)
  have e: "spawned (start (Some song_a)) = []"
    by (simp add: start_def)
  show ?thesis
    using h0 h1 h2 h3 cycle_repeat_absolute [of tool "start (Some song_a)" "''None''"]
    by (simp add: n e)
qed

section \<open>Properties of the polling scheduler\<close>

lemma tidy_fresh: "tidy (fresh_page n b)"
  by (simp add: tidy_def fresh_page_def)

lemma tidy_clear: "tidy pg \<Longrightarrow> intervals (clear_polling pg) = []"
  by (auto simp add: tidy_def clear_polling_def clearInterval_def split: option.splits)

lemma last_id_clear: "last_id (clear_polling pg) = last_id pg"
  by (simp add: clear_polling_def clearInterval_def split: option.splits)

lemma update_timers:
  "intervals (updatePlayerUI pg) = intervals pg"
  "pollingInterval (updatePlayerUI pg) = pollingInterval pg"
  "last_id (updatePlayerUI pg) = last_id pg"
  "ui_calls (updatePlayerUI pg) = Suc (ui_calls pg)"
  by (simp_all add: updatePlayerUI_def removePlayerPanel_def)

lemma updates_timers:
  "intervals ((updatePlayerUI ^^ n) pg) = intervals pg"
  "pollingInterval ((updatePlayerUI ^^ n) pg) = pollingInterval pg"
  "last_id ((updatePlayerUI ^^ n) pg) = last_id pg"
  "ui_calls ((updatePlayerUI ^^ n) pg) = ui_calls pg + n"
  by (induction n) (simp_all add: update_timers)

lemma resolve_timers:
  "intervals (fetch_resolves pg) = intervals pg"
  "pollingInterval (fetch_resolves pg) = pollingInterval pg"
  "last_id (fetch_resolves pg) = last_id pg"
  "ui_calls (fetch_resolves pg) = ui_calls pg"
  by (simp_all add: fetch_resolves_def)

lemma start_intervals:
  "tidy pg \<Longrightarrow> intervals (startPolling pg) = [Suc (last_id pg)]
     \<and> pollingInterval (startPolling pg) = Some (Suc (last_id pg))
     \<and> last_id (startPolling pg) = Suc (last_id pg)"
  by (simp add: startPolling_def setInterval_def update_timers Let_def tidy_clear last_id_clear)

lemma tidy_start: "tidy pg \<Longrightarrow> tidy (startPolling pg)"
  using start_intervals [of pg] by (simp add: tidy_def)

lemma stop_intervals:
  "tidy pg \<Longrightarrow> intervals (stopPolling pg) = [] \<and> pollingInterval (stopPolling pg) = None"
  by (simp add: stopPolling_def tidy_clear)

lemma tidy_stop: "tidy pg \<Longrightarrow> tidy (stopPolling pg)"
  using stop_intervals [of pg] by (simp add: tidy_def)

lemma tidy_update: "tidy pg \<Longrightarrow> tidy (updatePlayerUI pg)"
  by (auto simp add: tidy_def update_timers split: option.splits)

lemma tidy_second: "tidy pg \<Longrightarrow> tidy (second_passes pg)"
  by (auto simp add: tidy_def second_passes_def updates_timers split: option.splits)

lemma tidy_other: "tidy pg \<Longrightarrow> tidy (other_timer pg)"
  by (auto simp add: tidy_def other_timer_def split: option.splits)

lemma tidy_resolve: "tidy pg \<Longrightarrow> tidy (fetch_resolves pg)"
  by (auto simp add: tidy_def resolve_timers split: option.splits)

lemma tidy_remove: "tidy pg \<Longrightarrow> tidy (removePlayerPanel pg)"
  by (auto simp add: tidy_def removePlayerPanel_def split: option.splits)

lemma tidy_enable: "tidy pg \<Longrightarrow> tidy (pg\<lparr>panel_enabled := b\<rparr>)"
  by (auto simp add: tidy_def split: option.splits)

lemma tidy_step: "tidy pg \<Longrightarrow> tidy (step ev pg)"
  by (cases ev)
    (simp_all add: tidy_start tidy_stop tidy_second tidy_other tidy_resolve tidy_remove
      tidy_update tidy_enable)

lemma tidy_run: "tidy pg \<Longrightarrow> tidy (run evs pg)"
  by (induction evs arbitrary: pg) (simp_all add: tidy_step)

lemma seconds_calls:
  "ui_calls (seconds k pg) = ui_calls pg + k * length (intervals pg)
   \<and> intervals (seconds k pg) = intervals pg"
proof (induction k arbitrary: pg)
  case 0
  show ?case by simp
next
  case (Suc k)
  show ?case
    by (simp add: Suc second_passes_def updates_timers)
qed

text \<open>With no live interval, time only lets the calls in flight come back.\<close>

lemma idle_second: "intervals pg = [] \<Longrightarrow> second_passes pg = pg"
  by (simp add: second_passes_def)

lemma later_idle:
  "intervals pg = [] \<Longrightarrow>
     intervals (later bs pg) = []
     \<and> ui_calls (later bs pg) = ui_calls pg
     \<and> renders (later bs pg) + in_flight (later bs pg) \<le> renders pg + in_flight pg
     \<and> renders pg \<le> renders (later bs pg)"
proof (induction bs arbitrary: pg)
  case Nil
  show ?case using Nil by simp
next
  case (Cons b bs)
  show ?case
  proof (cases b)
    case True
    then show ?thesis using Cons.IH [of pg] Cons.prems by (simp add: idle_second)
  next
    case False
    have i: "intervals (fetch_resolves pg) = []"
      using Cons.prems by (simp add: resolve_timers)
    have r: "renders (fetch_resolves pg) + in_flight (fetch_resolves pg) \<le> renders pg + in_flight pg"
      "renders pg \<le> renders (fetch_resolves pg)"
      by (simp_all add: fetch_resolves_def)
    from Cons.IH [OF i] r False show ?thesis
      by (simp add: resolve_timers)
  qed
qed

lemma later_no_panel:
  "intervals pg = [] \<Longrightarrow> \<not> panel_present pg \<Longrightarrow> renders (later bs pg) = renders pg"
proof (induction bs arbitrary: pg)
  case Nil
  show ?case by simp
next
  case (Cons b bs)
  show ?case
  proof (cases b)
    case True
    then show ?thesis using Cons.IH [of pg] Cons.prems by (simp add: idle_second)
  next
    case False
    have i: "intervals (fetch_resolves pg) = []"
      using Cons.prems by (simp add: resolve_timers)
    have p: "\<not> panel_present (fetch_resolves pg)" "renders (fetch_resolves pg) = renders pg"
      using Cons.prems by (simp_all add: fetch_resolves_def)
    from Cons.IH [OF i p(1)] p(2) False show ?thesis by simp
  qed
qed

text \<open>
  The scheduler is started on a fresh page with the panel enabled and stopped at once:
  no interval is live and nothing has been rendered. The call of \<open>updatePlayerUI\<close> that
  the start made is still awaiting its fetch; when the fetch resolves, it renders.
\<close>

theorem render_after_stop:
  "intervals (run [Start, Stop] (fresh_page 0 True)) = []
   \<and> pollingInterval (run [Start, Stop] (fresh_page 0 True)) = None
   \<and> renders (run [Start, Stop] (fresh_page 0 True)) = 0
   \<and> renders (run [Start, Stop, Resolve] (fresh_page 0 True)) = 1"
  by (simp add: fresh_page_def startPolling_def stopPolling_def setInterval_def
      clear_polling_def clearInterval_def updatePlayerUI_def fetch_resolves_def Let_def)

text \<open>
  C7, amended. After any sequence of starts, stops, elapsed periods, resolved fetches,
  changes of the setting, removals of the panel and timers taken elsewhere, starting the
  scheduler clears the interval it holds first: exactly one interval is live, the one it
  holds, so that over \<open>k\<close> periods the timer calls \<open>updatePlayerUI\<close> exactly \<open>k\<close> times,
  also after two starts in a row. After a stop no interval is live and, whatever the
  order in which periods pass and fetches resolve, no call of \<open>updatePlayerUI\<close> is
  started. A call already started is not cancelled: when its fetch resolves after the
  stop it renders if the panel is in the document, so the renders after a stop are at
  most the calls in flight, and none once the panel has been removed.
\<close>

theorem polling_single_timer:
  "length (intervals (startPolling (run evs (fresh_page n b)))) = 1
   \<and> map Some (intervals (startPolling (run evs (fresh_page n b)))) =
       [pollingInterval (startPolling (run evs (fresh_page n b)))]
   \<and> ui_calls (seconds k (startPolling (run evs (fresh_page n b)))) =
       ui_calls (startPolling (run evs (fresh_page n b))) + k
   \<and> ui_calls (seconds k (startPolling (startPolling (run evs (fresh_page n b))))) =
       ui_calls (startPolling (startPolling (run evs (fresh_page n b)))) + k
   \<and> intervals (stopPolling (run evs (fresh_page n b))) = []
   \<and> ui_calls (later bs (stopPolling (run evs (fresh_page n b)))) =
       ui_calls (stopPolling (run evs (fresh_page n b)))
   \<and> renders (fetch_resolves (stopPolling (run evs (fresh_page n b)))) =
       renders (stopPolling (run evs (fresh_page n b)))
       + (if 0 < in_flight (stopPolling (run evs (fresh_page n b)))
             \<and> panel_present (stopPolling (run evs (fresh_page n b))) then 1 else 0)
   \<and> renders (later bs (stopPolling (run evs (fresh_page n b)))) \<le>
       renders (stopPolling (run evs (fresh_page n b)))
       + in_flight (stopPolling (run evs (fresh_page n b)))
   \<and> renders (later bs (removePlayerPanel (stopPolling (run evs (fresh_page n b))))) =
       renders (stopPolling (run evs (fresh_page n b)))"
proof -
  let ?pg = "run evs (fresh_page n b)"
  have t: "tidy ?pg" by (simp add: tidy_run tidy_fresh)
  have t1: "tidy (startPolling ?pg)" using t by (rule tidy_start)
  have a: "intervals (startPolling ?pg) = [Suc (last_id ?pg)]"
    using start_intervals [OF t] by simp
  have a': "pollingInterval (startPolling ?pg) = Some (Suc (last_id ?pg))"
    using start_intervals [OF t] by simp
  have b: "intervals (startPolling (startPolling ?pg)) = [Suc (last_id (startPolling ?pg))]"
    using start_intervals [OF t1] by simp
  have c: "intervals (stopPolling ?pg) = []"
    using stop_intervals [OF t] by simp
  have c': "intervals (removePlayerPanel (stopPolling ?pg)) = []"
    "\<not> panel_present (removePlayerPanel (stopPolling ?pg))"
    "renders (removePlayerPanel (stopPolling ?pg)) = renders (stopPolling ?pg)"
    using c by (simp_all add: removePlayerPanel_def)
  have d: "renders (fetch_resolves (stopPolling ?pg)) =
       renders (stopPolling ?pg)
       + (if 0 < in_flight (stopPolling ?pg) \<and> panel_present (stopPolling ?pg) then 1 else 0)"
    by (simp add: fetch_resolves_def)
  have e: "renders (later bs (stopPolling ?pg)) \<le>
       renders (stopPolling ?pg) + in_flight (stopPolling ?pg)"
    using later_idle [OF c, of bs] by linarith
  have f: "ui_calls (later bs (stopPolling ?pg)) = ui_calls (stopPolling ?pg)"
    using later_idle [OF c, of bs] by simp
  have g: "renders (later bs (removePlayerPanel (stopPolling ?pg))) = renders (stopPolling ?pg)"
    using later_no_panel [OF c'(1) c'(2), of bs] by (simp only: c'(3))
  have s1: "ui_calls (seconds k (startPolling ?pg)) = ui_calls (startPolling ?pg) + k"
    by (simp add: seconds_calls a)
  have s2: "ui_calls (seconds k (startPolling (startPolling ?pg))) =
      ui_calls (startPolling (startPolling ?pg)) + k"
    by (simp add: seconds_calls b)
  have l1: "length (intervals (startPolling ?pg)) = 1" by (simp add: a)
  have l2: "map Some (intervals (startPolling ?pg)) = [pollingInterval (startPolling ?pg)]"
    by (simp add: a a')
  show ?thesis
    by (intro conjI) (rule l1 l2 s1 s2 c f d e g)+
qed

section \<open>Properties of the progress bar\<close>

text \<open>
  The claim C2 as stated fails: for the duration 200000 and the position 300000 the
  width set is 150 percent.
\<close>

theorem progress_not_clamped:
  "bar_width (update_progress (Fin 300000) (Fin 200000) fresh_panel) = Some (Fin 150)
   \<and> \<not> clamped (bar_width (update_progress (Fin 300000) (Fin 200000) fresh_panel))"
  by (simp add: update_progress_def fresh_panel_def)

text \<open>
  C2, amended. For a duration \<open>d > 0\<close> and a position \<open>p\<close> the width of the bar is set to
  \<open>p / d * 100\<close> percent, unclamped: it lies between 0 and 100 exactly when
  \<open>0 \<le> p \<le> d\<close>. For the duration 0 the block leaves the panel as it is.
\<close>

theorem progress_width:
  "(0 < d \<longrightarrow>
      bar_width (update_progress (Fin p) (Fin d) pn) = Some (Fin (p / d * 100))
      \<and> (clamped (bar_width (update_progress (Fin p) (Fin d) pn)) \<longleftrightarrow> 0 \<le> p \<and> p \<le> d))
   \<and> update_progress x (Fin 0) pn = pn"
proof (intro conjI impI)
  assume d: "0 < d"
  then show w: "bar_width (update_progress (Fin p) (Fin d) pn) = Some (Fin (p / d * 100))"
    by (simp add: update_progress_def)
  have "0 \<le> p / d * 100 \<longleftrightarrow> 0 \<le> p"
    using d by (simp add: zero_le_mult_iff zero_le_divide_iff)
  moreover have "p / d * 100 \<le> 100 \<longleftrightarrow> p \<le> d"
    using d by (simp add: pos_divide_le_eq)
  ultimately show "clamped (bar_width (update_progress (Fin p) (Fin d) pn)) \<longleftrightarrow> 0 \<le> p \<and> p \<le> d"
    by (simp add: w)
next
  show "update_progress x (Fin 0) pn = pn"
    by (simp add: update_progress_def)
qed

theorem progress_width_witness:
  "(0::rat) < 200000
   \<and> bar_width (update_progress (Fin 50000) (Fin 200000) fresh_panel) = Some (Fin 25)
   \<and> clamped (bar_width (update_progress (Fin 50000) (Fin 200000) fresh_panel))
   \<and> update_progress (Fin 50000) (Fin 0) fresh_panel = fresh_panel"
proof -
  have h: "(0::rat) < 200000" by simp
  show ?thesis
    using h progress_width [of 200000 50000 fresh_panel "Fin 50000"] by simp
qed

section \<open>Properties of the token accessor\<close>

lemma getValidToken_fresh:
  assumes "accessToken (settings c) \<noteq> []" "tokenExpiry (settings c) = Fin x"
    "of_int (clock e) \<le> x - 60000"
  shows "getValidToken e c = (Some (accessToken (settings c)), c)"
  using assms by (simp add: getValidToken_def js_sub_def)

lemma getValidToken_stale:
  assumes "accessToken (settings c) \<noteq> []" "tokenExpiry (settings c) = Fin x"
    "x - 60000 < of_int (clock e)"
  shows "getValidToken e c =
    (case refreshAccessToken e c of
       (True, c') \<Rightarrow> (Some (accessToken (settings c')), c')
     | (False, c') \<Rightarrow> (None, c'))"
  using assms by (simp add: getValidToken_def js_sub_def)

lemma getValidToken_stale_snd:
  assumes "accessToken (settings c) \<noteq> []" "tokenExpiry (settings c) = Fin x"
    "x - 60000 < of_int (clock e)"
  shows "snd (getValidToken e c) = snd (refreshAccessToken e c)"
proof (cases "refreshAccessToken e c")
  case (Pair b c')
  then show ?thesis
    by (cases b) (simp_all add: getValidToken_stale [OF assms])
qed

lemma getValidToken_stale_fst:
  assumes "accessToken (settings c) \<noteq> []" "tokenExpiry (settings c) = Fin x"
    "x - 60000 < of_int (clock e)"
  shows "fst (getValidToken e c) =
    (if fst (refreshAccessToken e c)
     then Some (accessToken (settings (snd (refreshAccessToken e c)))) else None)"
proof (cases "refreshAccessToken e c")
  case (Pair b c')
  then show ?thesis
    by (cases b) (simp_all add: getValidToken_stale [OF assms])
qed

lemma refresh_posts_one:
  assumes "refreshToken (settings c) \<noteq> []" "clientId (settings c) \<noteq> []"
  shows "refresh_posts (snd (refreshAccessToken e c)) =
    refresh_posts c @ [(clientId (settings c), refreshToken (settings c))]"
  using assms by (simp add: refreshAccessToken_def Let_def split: token_reply.splits)

lemma refresh_true_posts:
  "fst (refreshAccessToken e c) \<Longrightarrow>
   refresh_posts (snd (refreshAccessToken e c)) \<noteq> refresh_posts c"
  by (auto simp add: refreshAccessToken_def Let_def split: token_reply.splits if_splits)

lemma refresh_rejected:
  assumes "refreshToken (settings c) \<noteq> []" "clientId (settings c) \<noteq> []"
    "token_endpoint e (clientId (settings c), refreshToken (settings c)) = Data d"
    "access_token d = []"
  shows "refreshAccessToken e c =
    (False, c\<lparr>refresh_posts := refresh_posts c @ [(clientId (settings c), refreshToken (settings c))],
              notices := notices c @ [session_expired]\<rparr>)"
  using assms by (simp add: refreshAccessToken_def Let_def)

text \<open>
  The boundary itself: at \<open>now = tokenExpiry - 60000\<close> the accessor returns the stored
  token and posts no refresh, although the endpoint would grant a new token.
\<close>

theorem no_refresh_at_boundary:
  "getValidToken (env_at 940000 granting) (signed_in 1000000) = (Some ''tok1'', signed_in 1000000)
   \<and> refresh_posts (snd (getValidToken (env_at 940000 granting) (signed_in 1000000))) = []"
  by (simp add: getValidToken_def signed_in_def env_at_def js_sub_def)

text \<open>
  C4, amended. For a stored token set with a non-empty access token and the expiry \<open>x\<close>,
  the accessor returns the stored access token, the client unchanged and no refresh
  posted, exactly when \<open>now \<le> x - 60000\<close>; once \<open>now\<close> has passed that boundary a
  call goes through the refresh (one request is posted when a refresh token and a
  client id are stored) and returns the refreshed token or nothing. Two calls both made
  at or before the boundary return the same token with no refresh in between.
\<close>

theorem token_fresh_iff:
  assumes "accessToken (settings c) \<noteq> []" "tokenExpiry (settings c) = Fin x"
  shows "(getValidToken e c = (Some (accessToken (settings c)), c)
            \<longleftrightarrow> of_int (clock e) \<le> x - 60000)
    \<and> (x - 60000 < of_int (clock e) \<longrightarrow>
          getValidToken e c =
            (if fst (refreshAccessToken e c)
             then Some (accessToken (settings (snd (refreshAccessToken e c)))) else None,
             snd (refreshAccessToken e c)))
    \<and> (x - 60000 < of_int (clock e) \<and> refreshToken (settings c) \<noteq> [] \<and> clientId (settings c) \<noteq> []
          \<longrightarrow> refresh_posts (snd (getValidToken e c)) =
            refresh_posts c @ [(clientId (settings c), refreshToken (settings c))])
    \<and> (of_int (clock e) \<le> x - 60000 \<and> of_int (clock e') \<le> x - 60000 \<longrightarrow>
          getValidToken e' (snd (getValidToken e c)) = getValidToken e c)"
proof (intro conjI impI)
  show "getValidToken e c = (Some (accessToken (settings c)), c)
            \<longleftrightarrow> of_int (clock e) \<le> x - 60000"
  proof
    assume eq: "getValidToken e c = (Some (accessToken (settings c)), c)"
    show "of_int (clock e) \<le> x - 60000"
    proof (rule ccontr)
      assume "\<not> of_int (clock e) \<le> x - 60000"
      then have st: "x - 60000 < of_int (clock e)" by simp
      note g = getValidToken_stale_snd [OF assms st] getValidToken_stale_fst [OF assms st]
      from eq g have t: "fst (refreshAccessToken e c)" and u: "snd (refreshAccessToken e c) = c"
        by (auto split: if_splits)
      from refresh_true_posts [OF t] u show False by simp
    qed
  next
    assume "of_int (clock e) \<le> x - 60000"
    then show "getValidToken e c = (Some (accessToken (settings c)), c)"
      by (rule getValidToken_fresh [OF assms])
  qed
next
  assume st: "x - 60000 < of_int (clock e)"
  show "getValidToken e c =
            (if fst (refreshAccessToken e c)
             then Some (accessToken (settings (snd (refreshAccessToken e c)))) else None,
             snd (refreshAccessToken e c))"
    using getValidToken_stale_snd [OF assms st] getValidToken_stale_fst [OF assms st]
    by (simp add: prod_eq_iff)
next
  assume a: "x - 60000 < of_int (clock e) \<and> refreshToken (settings c) \<noteq> [] \<and> clientId (settings c) \<noteq> []"
  then have st: "x - 60000 < of_int (clock e)" by simp
  from a show "refresh_posts (snd (getValidToken e c)) =
            refresh_posts c @ [(clientId (settings c), refreshToken (settings c))]"
    by (simp add: getValidToken_stale_snd [OF assms st] refresh_posts_one)
next
  assume "of_int (clock e) \<le> x - 60000 \<and> of_int (clock e') \<le> x - 60000"
  then show "getValidToken e' (snd (getValidToken e c)) = getValidToken e c"
    using getValidToken_fresh [OF assms, of e] getValidToken_fresh [OF assms, of e']
    by simp
qed

theorem token_fresh_iff_witness:
  "accessToken (settings (signed_in 1000000)) \<noteq> []
   \<and> tokenExpiry (settings (signed_in 1000000)) = Fin 1000000
   \<and> getValidToken (env_at 900000 granting) (signed_in 1000000) =
       (Some ''tok1'', signed_in 1000000)
   \<and> getValidToken (env_at 930000 granting)
        (snd (getValidToken (env_at 900000 granting) (signed_in 1000000))) =
       (Some ''tok1'', signed_in 1000000)
   \<and> fst (getValidToken (env_at 990000 granting) (signed_in 1000000)) = Some ''tok2''
   \<and> refresh_posts (snd (getValidToken (env_at 990000 granting) (signed_in 1000000))) =
       [(''app'', ''ref1'')]"
proof -
  have h1: "accessToken (settings (signed_in 1000000)) \<noteq> []"
    by (simp add: signed_in_def)
  have h2: "tokenExpiry (settings (signed_in 1000000)) = Fin 1000000"
    by (simp add: signed_in_def)
  have r: "refreshAccessToken (env_at 990000 granting) (signed_in 1000000) =
      (True, (signed_in 1000000)\<lparr>refresh_posts := [(''app'', ''ref1'')],
         settings := (settings (signed_in 1000000))\<lparr>accessToken := ''tok2'',
           tokenExpiry := Fin 4590000\<rparr>, saves := 1\<rparr>)"
    by (simp add: refreshAccessToken_def signed_in_def env_at_def granting_def Let_def)
  have k: "clientId (settings (signed_in 1000000)) = ''app''"
    "refreshToken (settings (signed_in 1000000)) = ''ref1''"
    "refresh_posts (signed_in 1000000) = []"
    "accessToken (settings (signed_in 1000000)) = ''tok1''"
    by (simp_all add: signed_in_def)
  have t: "clock (env_at 900000 granting) = 900000" "clock (env_at 930000 granting) = 930000"
    "clock (env_at 990000 granting) = 990000"
    by (simp_all add: env_at_def)
  note T1 = token_fresh_iff [OF h1 h2, of "env_at 900000 granting" "env_at 930000 granting"]
  note T2 = token_fresh_iff [OF h1 h2, of "env_at 990000 granting" "env_at 990000 granting"]
  have A: "of_int (clock (env_at 900000 granting)) \<le> (1000000::rat) - 60000"
    "of_int (clock (env_at 930000 granting)) \<le> (1000000::rat) - 60000"
    "(1000000::rat) - 60000 < of_int (clock (env_at 990000 granting))"
    by (simp_all add: t)
  from T1 A have a0: "getValidToken (env_at 900000 granting) (signed_in 1000000) =
      (Some (accessToken (settings (signed_in 1000000))), signed_in 1000000)"
    by blast
  then have a: "getValidToken (env_at 900000 granting) (signed_in 1000000) =
      (Some ''tok1'', signed_in 1000000)"
    by (simp add: k)
  from T1 A have b0: "getValidToken (env_at 930000 granting)
        (snd (getValidToken (env_at 900000 granting) (signed_in 1000000))) =
      getValidToken (env_at 900000 granting) (signed_in 1000000)"
    by blast
  have b: "getValidToken (env_at 930000 granting)
        (snd (getValidToken (env_at 900000 granting) (signed_in 1000000))) =
      (Some ''tok1'', signed_in 1000000)"
    by (rule trans [OF b0 a])
  from T2 A have c0: "getValidToken (env_at 990000 granting) (signed_in 1000000) =
      (if fst (refreshAccessToken (env_at 990000 granting) (signed_in 1000000))
       then Some (accessToken (settings (snd (refreshAccessToken (env_at 990000 granting)
              (signed_in 1000000))))) else None,
       snd (refreshAccessToken (env_at 990000 granting) (signed_in 1000000)))"
    by blast
  have c: "fst (getValidToken (env_at 990000 granting) (signed_in 1000000)) = Some ''tok2''"
    by (simp add: c0 r)
  have d: "refresh_posts (snd (getValidToken (env_at 990000 granting) (signed_in 1000000))) =
      [(''app'', ''ref1'')]"
    by (simp add: c0 r)
  show ?thesis
    by (intro conjI) (rule h1 h2 a b c d)+
qed

section \<open>Properties of a rejected refresh\<close>

text \<open>
  Two poll ticks past the boundary with a token endpoint that rejects the refresh: two
  notices are surfaced, the same refresh token is posted twice, and the stored token set
  is the one before.
\<close>

theorem rejected_refresh_repeats:
  "notices (snd (getValidToken (env_at 991000 rejecting)
       (snd (getValidToken (env_at 990000 rejecting) (signed_in 1000000))))) =
     [session_expired, session_expired]
   \<and> refresh_posts (snd (getValidToken (env_at 991000 rejecting)
       (snd (getValidToken (env_at 990000 rejecting) (signed_in 1000000))))) =
     [(''app'', ''ref1''), (''app'', ''ref1'')]
   \<and> settings (snd (getValidToken (env_at 991000 rejecting)
       (snd (getValidToken (env_at 990000 rejecting) (signed_in 1000000))))) =
     settings (signed_in 1000000)"
  by (simp add: getValidToken_def refreshAccessToken_def signed_in_def env_at_def
      rejecting_def js_sub_def Let_def)

text \<open>
  C3, amended. When the token endpoint rejects a refresh, that accessor call surfaces
  exactly one session-expired notice and returns nothing, and the stored token set
  stays as it was: there is no dissigned_in state. A later call past the boundary
  therefore posts the same refresh token again and, rejected again, surfaces one more
  notice: one per call, so one per poll tick.
\<close>

theorem rejected_refresh_keeps_tokens:
  assumes "accessToken (settings c) \<noteq> []" "tokenExpiry (settings c) = Fin x"
    "refreshToken (settings c) \<noteq> []" "clientId (settings c) \<noteq> []"
    "x - 60000 < of_int (clock e)" "x - 60000 < of_int (clock e')"
    "token_endpoint e (clientId (settings c), refreshToken (settings c)) = Data d"
    "access_token d = []"
    "token_endpoint e' (clientId (settings c), refreshToken (settings c)) = Data d'"
    "access_token d' = []"
  shows "getValidToken e c =
      (None, c\<lparr>refresh_posts :=
                   refresh_posts c @ [(clientId (settings c), refreshToken (settings c))],
                notices := notices c @ [session_expired]\<rparr>)
    \<and> settings (snd (getValidToken e c)) = settings c
    \<and> notices (snd (getValidToken e' (snd (getValidToken e c)))) =
        notices c @ [session_expired, session_expired]
    \<and> refresh_posts (snd (getValidToken e' (snd (getValidToken e c)))) =
        refresh_posts c @ [(clientId (settings c), refreshToken (settings c)),
                           (clientId (settings c), refreshToken (settings c))]"
proof -
  let ?req = "(clientId (settings c), refreshToken (settings c))"
  let ?c1 = "c\<lparr>refresh_posts := refresh_posts c @ [?req],
                notices := notices c @ [session_expired]\<rparr>"
  have r1: "refreshAccessToken e c = (False, ?c1)"
    by (rule refresh_rejected [OF assms(3,4,7,8)])
  have g1: "getValidToken e c = (None, ?c1)"
    by (simp add: getValidToken_stale [OF assms(1,2,5)] r1)
  have s1: "settings ?c1 = settings c" by simp
  have r2: "refreshAccessToken e' ?c1 =
      (False, ?c1\<lparr>refresh_posts := refresh_posts ?c1 @ [?req],
                   notices := notices ?c1 @ [session_expired]\<rparr>)"
    using refresh_rejected [of ?c1 e' d'] assms(3,4,9,10) by simp
  have g2: "getValidToken e' ?c1 =
      (None, ?c1\<lparr>refresh_posts := refresh_posts ?c1 @ [?req],
                  notices := notices ?c1 @ [session_expired]\<rparr>)"
    using getValidToken_stale [of ?c1 x e'] assms(1,2,6) by (simp add: r2)
  show ?thesis
    by (simp add: g1 g2)
qed

theorem rejected_refresh_keeps_tokens_witness:
  "getValidToken (env_at 990000 rejecting) (signed_in 1000000) =
     (None, (signed_in 1000000)\<lparr>refresh_posts := [(''app'', ''ref1'')],
        notices := [session_expired]\<rparr>)
   \<and> notices (snd (getValidToken (env_at 995000 rejecting)
        (snd (getValidToken (env_at 990000 rejecting) (signed_in 1000000))))) =
     [session_expired, session_expired]"
proof -
  let ?c = "signed_in 1000000"
  let ?e = "env_at 990000 rejecting"
  let ?e' = "env_at 995000 rejecting"
  let ?d = "\<lparr>access_token = [], refresh_token = [], expires_in = NaN\<rparr>"
  have k: "clientId (settings ?c) = ''app''" "refreshToken (settings ?c) = ''ref1''"
    "refresh_posts ?c = []" "notices ?c = []"
    by (simp_all add: signed_in_def)
  have h1: "accessToken (settings ?c) \<noteq> []" by (simp add: signed_in_def)
  have h2: "tokenExpiry (settings ?c) = Fin 1000000" by (simp add: signed_in_def)
  have h3: "refreshToken (settings ?c) \<noteq> []" by (simp add: signed_in_def)
  have h4: "clientId (settings ?c) \<noteq> []" by (simp add: signed_in_def)
  have h5: "(1000000::rat) - 60000 < of_int (clock ?e)" by (simp add: env_at_def)
  have h6: "(1000000::rat) - 60000 < of_int (clock ?e')" by (simp add: env_at_def)
  have h7: "token_endpoint ?e (clientId (settings ?c), refreshToken (settings ?c)) = Data ?d"
    by (simp add: env_at_def rejecting_def)
  have h8: "access_token ?d = []" by simp
  have h9: "token_endpoint ?e' (clientId (settings ?c), refreshToken (settings ?c)) = Data ?d"
    by (simp add: env_at_def rejecting_def)
  note T = rejected_refresh_keeps_tokens [OF h1 h2 h3 h4 h5 h6 h7 h8 h9 h8]
  from T have a0: "getValidToken ?e ?c =
     (None, ?c\<lparr>refresh_posts :=
                   refresh_posts ?c @ [(clientId (settings ?c), refreshToken (settings ?c))],
                notices := notices ?c @ [session_expired]\<rparr>)"
    by blast
  have a: "getValidToken ?e ?c =
     (None, ?c\<lparr>refresh_posts := [(''app'', ''ref1'')], notices := [session_expired]\<rparr>)"
    by (simp add: a0 k)
  from T have b0: "notices (snd (getValidToken ?e' (snd (getValidToken ?e ?c)))) =
     notices ?c @ [session_expired, session_expired]"
    by blast
  have b: "notices (snd (getValidToken ?e' (snd (getValidToken ?e ?c)))) =
     [session_expired, session_expired]"
    by (simp only: b0 k append_Nil)
  show ?thesis
    by (intro conjI) (rule a b)+
qed

section \<open>Properties of the rounding\<close>


lemma half_even_int: "half_even (of_int z) = z"
  by (simp add: half_even_def)

lemma pow2_nonpos: "e \<le> 0 \<Longrightarrow> pow2 e = 1 / 2 ^ nat (- e)"
  by (simp add: pow2_def)

lemma ilog2_le:
  assumes "0 < a"
  shows "pow2 (ilog2 a) \<le> a"
proof (cases "1 \<le> a")
  case True
  then have f: "0 < \<lfloor>a\<rfloor>" by linarith
  from bitlen_bounds [OF f] have b: "2 ^ nat (bitlen \<lfloor>a\<rfloor> - 1) \<le> \<lfloor>a\<rfloor>" by simp
  from f have "0 < bitlen \<lfloor>a\<rfloor>" by (simp add: bitlen_alt_def)
  then have p: "pow2 (ilog2 a) = 2 ^ nat (bitlen \<lfloor>a\<rfloor> - 1)"
    using True by (simp add: ilog2_def pow2_def)
  have "(2::rat) ^ nat (bitlen \<lfloor>a\<rfloor> - 1) = of_int (2 ^ nat (bitlen \<lfloor>a\<rfloor> - 1))" by simp
  also have "\<dots> \<le> of_int \<lfloor>a\<rfloor>" using b by (simp only: of_int_le_iff)
  also have "\<dots> \<le> a" by linarith
  finally show ?thesis by (simp only: p)
next
  case False
  with assms have t: "1 < 1 / a" by simp
  let ?g = "\<lceil>1 / a\<rceil> - 1"
  from t have g: "0 < ?g" by linarith
  from bitlen_bounds [OF g] have b: "?g < 2 ^ nat (bitlen ?g)" by simp
  from g have bl: "0 < bitlen ?g" by (simp add: bitlen_alt_def)
  then have p: "pow2 (ilog2 a) = 1 / 2 ^ nat (bitlen ?g)"
    using False by (simp add: ilog2_def pow2_def)
  from b have "\<lceil>1 / a\<rceil> \<le> 2 ^ nat (bitlen ?g)" by simp
  then have "(of_int \<lceil>1 / a\<rceil> :: rat) \<le> of_int (2 ^ nat (bitlen ?g))"
    by (simp only: of_int_le_iff)
  also have "\<dots> = 2 ^ nat (bitlen ?g)" by simp
  finally have c: "(of_int \<lceil>1 / a\<rceil> :: rat) \<le> 2 ^ nat (bitlen ?g)" .
  have "1 / a \<le> of_int \<lceil>1 / a\<rceil>" by linarith
  from this c have "1 / a \<le> 2 ^ nat (bitlen ?g)" by (rule order_trans)
  then have "1 / 2 ^ nat (bitlen ?g) \<le> a"
    using assms by (simp add: field_simps)
  then show ?thesis by (simp only: p)
qed

lemma ilog2_less:
  assumes "0 < a" "a < 2 ^ n"
  shows "ilog2 a < int n"
proof (rule ccontr)
  assume "\<not> ilog2 a < int n"
  then have n: "int n \<le> ilog2 a" by simp
  then have p: "pow2 (ilog2 a) = 2 ^ nat (ilog2 a)" by (simp add: pow2_def)
  from n have "n \<le> nat (ilog2 a)" by simp
  then have "(2::rat) ^ n \<le> 2 ^ nat (ilog2 a)"
    by (intro power_increasing) simp_all
  also have "\<dots> \<le> a" using ilog2_le [OF assms(1)] by (simp only: p)
  finally have "2 ^ n \<le> a" .
  with assms(2) show False by simp
qed

lemma dbl_of_nat:
  assumes "n < 2 ^ 53"
  shows "dbl (of_nat n) = Fin (of_nat n)"
proof (cases "n = 0")
  case True
  then show ?thesis by (simp add: dbl_def)
next
  case False
  let ?a = "of_nat n :: rat"
  let ?e = "max (ilog2 ?a - 52) (- 1074)"
  have pos: "0 < ?a" using False by simp
  have lt: "?a < 2 ^ 53"
  proof -
    have "(of_nat n :: rat) < of_nat (2 ^ 53)" using assms by (simp only: of_nat_less_iff)
    then show ?thesis by simp
  qed
  from ilog2_less [OF pos lt] have e: "?e \<le> 0" by simp
  let ?N = "nat (- ?e)"
  have p: "pow2 ?e = 1 / 2 ^ ?N" by (rule pow2_nonpos [OF e])
  have y: "?a / pow2 ?e = of_int (int n * 2 ^ ?N)" by (simp add: p)
  have h: "half_even (?a / pow2 ?e) = int n * 2 ^ ?N"
    by (simp only: y half_even_int)
  have v: "of_int (half_even (?a / pow2 ?e)) * pow2 ?e = ?a"
    by (simp only: h) (simp add: p)
  have "?a < 2 ^ 1024"
  proof -
    have "(2::rat) ^ 53 \<le> 2 ^ 1024" by (intro power_increasing) simp_all
    with lt show ?thesis by linarith
  qed
  then show ?thesis
    using False by (simp add: dbl_def Let_def v del: max.absorb_iff1 max.absorb_iff2)
qed










lemma dbl_numeral: "numeral k < (2::nat) ^ 53 \<Longrightarrow> dbl (numeral k) = Fin (numeral k)"
  using dbl_of_nat [of "numeral k"] by simp



section \<open>Properties of getPlayerState\<close>

lemma unavailable_available: "get_prop unavailable ''available'' = Inr (JBool False)"
  by (simp add: unavailable_def)

lemma state_object_Inr:
  assumes "state_object playing md sec us sh lp = Inr v"
  shows "\<exists>t a al u. v = JObj [(''available'', JBool True),
                  (''playing'', JBool playing),
                  (''title'', t), (''artist'', a), (''album'', al), (''artUrl'', u),
                  (''progress_ms'', JNum (Math_floor (num_mul sec (Fin 1000)))),
                  (''duration_ms'', JNum (Math_floor (num_div us (Fin 1000)))),
                  (''shuffle'', JBool (sh = Some ''On'')),
                  (''loop'', JStr (or_str lp ''None''))]"
  using assms by (auto simp add: state_object_def bind_err_def split: sum.splits)

lemma state_object_fields:
  assumes "state_object playing md sec us sh lp = Inr v"
  shows "get_prop v ''available'' = Inr (JBool True)"
    and "get_prop v ''playing'' = Inr (JBool playing)"
    and "get_prop v ''progress_ms'' = Inr (JNum (Math_floor (num_mul sec (Fin 1000))))"
    and "get_prop v ''duration_ms'' = Inr (JNum (Math_floor (num_div us (Fin 1000))))"
proof -
  from state_object_Inr [OF assms] obtain t a al u where
    v: "v = JObj [(''available'', JBool True),
                  (''playing'', JBool playing),
                  (''title'', t), (''artist'', a), (''album'', al), (''artUrl'', u),
                  (''progress_ms'', JNum (Math_floor (num_mul sec (Fin 1000)))),
                  (''duration_ms'', JNum (Math_floor (num_div us (Fin 1000)))),
                  (''shuffle'', JBool (sh = Some ''On'')),
                  (''loop'', JStr (or_str lp ''None''))]"
    by blast
  show "get_prop v ''available'' = Inr (JBool True)" by (simp add: v)
  show "get_prop v ''playing'' = Inr (JBool playing)" by (simp add: v)
  show "get_prop v ''progress_ms'' = Inr (JNum (Math_floor (num_mul sec (Fin 1000))))"
    by (simp add: v)
  show "get_prop v ''duration_ms'' = Inr (JNum (Math_floor (num_div us (Fin 1000))))"
    by (simp add: v)
qed



lemma try_absent:
  "falsy_str (fst (playerctl exec metadata_query st)) \<Longrightarrow>
   player_state_try exec st = (Inr unavailable, snd (playerctl exec metadata_query st))"
  by (cases "playerctl exec metadata_query st") (simp add: player_state_try_def)

lemma getPlayerState_absent:
  "falsy_str (fst (playerctl exec metadata_query st)) \<Longrightarrow>
   getPlayerState exec st = (unavailable, snd (playerctl exec metadata_query st))"
  by (simp add: getPlayerState_def try_absent)

text \<open>What the body of the \<open>try\<close> returns is the unavailable state or the full object.\<close>

lemma try_Inr:
  assumes "fst (player_state_try exec st) = Inr v"
  shows "v = unavailable \<or> get_prop v ''available'' = Inr (JBool True)"
proof (cases "falsy_str (fst (playerctl exec metadata_query st))")
  case True
  with assms show ?thesis by (simp add: try_absent)
next
  case False
  with assms have "get_prop v ''available'' = Inr (JBool True)"
    by (auto simp add: player_state_try_def Let_def split: prod.splits sum.splits
        dest: state_object_fields(1))
  then show ?thesis by simp
qed

lemma getPlayerState_available:
  "\<exists>b. get_prop (fst (getPlayerState exec st)) ''available'' = Inr (JBool b)"
proof (cases "player_state_try exec st")
  case (Pair r st')
  show ?thesis
  proof (cases r)
    case (Inl err)
    with Pair show ?thesis by (auto simp add: getPlayerState_def)
  next
    case (Inr v)
    with Pair have "fst (player_state_try exec st) = Inr v" by simp
    from try_Inr [OF this] have "\<exists>b. get_prop v ''available'' = Inr (JBool b)"
      using unavailable_available by auto
    with Pair Inr show ?thesis by (simp add: getPlayerState_def)
  qed
qed

text \<open>The fallback: the queries made, and the state built from their answers.\<close>

lemma or_str_or:
  "d \<noteq> [] \<Longrightarrow> js_or (JStr (or_str x d)) (JStr d) = JStr (or_str x d)"
  "js_or (JStr (or_str x [])) (JStr []) = JStr (or_str x [])"
  by (cases x; simp add: js_or_def)+

lemma parseInt_zero: "parseInt ''0'' = Fin 0"
  by (simp add: parseInt_def is_space_def is_digit_def digits_val_def digit_val_def signed_def
      dbl_def)

lemma fallback_length:
  "bind_err (Inr JUndef) (\<lambda>len. parseInt_val (js_or len (JStr ''0''))) = Inr (Fin 0)"
  by (simp add: bind_err_def js_or_def parseInt_val_def parseInt_zero)

lemma zero_duration: "Math_floor (num_div (Fin 0) (Fin 1000)) = Fin 0"
  by (simp add: num_div_def dbl_def)

lemma after_spawned:
  "spawned (after exec qs st) = spawned st @ map ((@) ''playerctl '') qs"
  by (induction qs arbitrary: st) (simp_all add: playerctl_spawned)

lemma after_snoc: "after exec (qs @ [q]) st = snd (playerctl exec q (after exec qs st))"
  by (induction qs arbitrary: st) simp_all

lemma playerctl_after:
  assumes "k < length qs"
  shows "playerctl exec (qs ! k) (after exec (take k qs) st) =
    (answer exec qs k st, after exec (take (Suc k) qs) st)"
proof -
  have "after exec (take (Suc k) qs) st = snd (playerctl exec (qs ! k) (after exec (take k qs) st))"
    using assms by (simp add: take_Suc_conv_app_nth after_snoc)
  then show ?thesis
    by (simp add: answer_def prod_eq_iff)
qed

lemma try_fallback:
  assumes "fst (playerctl exec metadata_query st) = Some raw" "raw \<noteq> []"
    "JSON_parse raw = Inl err"
  shows "player_state_try exec st =
    (Inr (JObj [(''available'', JBool True),
           (''playing'', JBool (answer exec fallback_queries 1 st = Some ''Playing'')),
           (''title'', JStr (or_str (answer exec fallback_queries 2 st) ''Unknown'')),
           (''artist'', JStr (or_str (answer exec fallback_queries 3 st) ''Unknown'')),
           (''album'', JStr (or_str (answer exec fallback_queries 4 st) [])),
           (''artUrl'', JStr (or_str (answer exec fallback_queries 5 st) [])),
           (''progress_ms'', JNum (Math_floor (num_mul
               (parseFloat (or_str (answer exec fallback_queries 6 st) ''0'')) (Fin 1000)))),
           (''duration_ms'', JNum (Fin 0)),
           (''shuffle'', JBool (answer exec fallback_queries 7 st = Some ''On'')),
           (''loop'', JStr (or_str (answer exec fallback_queries 8 st) ''None''))]),
     after exec fallback_queries st)"
proof -
  define S where "S k = after exec (take k fallback_queries) st" for k
  define A where "A k = answer exec fallback_queries k st" for k
  have len: "length fallback_queries = 9" by (simp add: fallback_queries_def)
  have p: "playerctl exec (fallback_queries ! k) (S k) = (A k, S (Suc k))" if "k < 9" for k
    unfolding S_def A_def using that by (intro playerctl_after) (simp add: len)
  have S0: "S 0 = st" by (simp add: S_def)
  have S9: "S 9 = after exec fallback_queries st" by (simp add: S_def len)
  have q: "fallback_queries ! 0 = metadata_query" "fallback_queries ! 1 = ''status''"
    "fallback_queries ! 2 = ''metadata title''" "fallback_queries ! 3 = ''metadata artist''"
    "fallback_queries ! 4 = ''metadata album''" "fallback_queries ! 5 = ''metadata mpris:artUrl''"
    "fallback_queries ! 6 = ''position''" "fallback_queries ! 7 = ''shuffle''"
    "fallback_queries ! 8 = ''loop''"
    by (simp_all add: fallback_queries_def)
  have n: "Suc 0 = 1" "Suc 1 = 2" "Suc 2 = 3" "Suc 3 = 4" "Suc 4 = 5" "Suc 5 = 6" "Suc 6 = 7"
    "Suc 7 = 8" "Suc 8 = 9"
    by simp_all
  have p0: "playerctl exec metadata_query st = (A 0, S (Suc 0))"
    using p [of 0] by (simp only: q S0; simp)
  have p1: "playerctl exec ''status'' (S (Suc 0)) = (A (Suc 0), S 2)"
    using p [of "Suc 0"] by (simp add: fallback_queries_def numeral_2_eq_2)
  have p2: "playerctl exec ''metadata title'' (S 2) = (A 2, S 3)"
    using p [of 2] by (simp only: q n; simp)
  have p3: "playerctl exec ''metadata artist'' (S 3) = (A 3, S 4)"
    using p [of 3] by (simp only: q n; simp)
  have p4: "playerctl exec ''metadata album'' (S 4) = (A 4, S 5)"
    using p [of 4] by (simp only: q n; simp)
  have p5: "playerctl exec ''metadata mpris:artUrl'' (S 5) = (A 5, S 6)"
    using p [of 5] by (simp only: q n; simp)
  have p6: "playerctl exec ''position'' (S 6) = (A 6, S 7)"
    using p [of 6] by (simp only: q n; simp)
  have p7: "playerctl exec ''shuffle'' (S 7) = (A 7, S 8)"
    using p [of 7] by (simp only: q n; simp)
  have p8: "playerctl exec ''loop'' (S 8) = (A 8, S 9)"
    using p [of 8] by (simp only: q n; simp)
  have a0: "A 0 = Some raw" using assms(1) by (simp add: p0)
  have fb: "fallback_metadata exec (S 2) =
      (JObj [(''title'', JStr (or_str (A 2) ''Unknown'')),
             (''artist'', JStr (or_str (A 3) ''Unknown'')),
             (''album'', JStr (or_str (A 4) [])),
             (''artUrl'', JStr (or_str (A 5) []))], S 6)"
    by (simp add: fallback_metadata_def p2 p3 p4 p5)
  have so: "state_object (A 1 = Some ''Playing'')
      (JObj [(''title'', JStr (or_str (A 2) ''Unknown'')),
             (''artist'', JStr (or_str (A 3) ''Unknown'')),
             (''album'', JStr (or_str (A 4) [])),
             (''artUrl'', JStr (or_str (A 5) []))])
      (parseFloat (or_str (A 6) ''0'')) (Fin 0) (A 7) (A 8) =
    Inr (JObj [(''available'', JBool True),
           (''playing'', JBool (A 1 = Some ''Playing'')),
           (''title'', JStr (or_str (A 2) ''Unknown'')),
           (''artist'', JStr (or_str (A 3) ''Unknown'')),
           (''album'', JStr (or_str (A 4) [])),
           (''artUrl'', JStr (or_str (A 5) [])),
           (''progress_ms'', JNum (Math_floor (num_mul
               (parseFloat (or_str (A 6) ''0'')) (Fin 1000)))),
           (''duration_ms'', JNum (Fin 0)),
           (''shuffle'', JBool (A 7 = Some ''On'')),
           (''loop'', JStr (or_str (A 8) ''None''))])"
    by (simp add: state_object_def bind_err_def or_str_or zero_duration)
  have "player_state_try exec st =
      (state_object (A 1 = Some ''Playing'')
        (JObj [(''title'', JStr (or_str (A 2) ''Unknown'')),
               (''artist'', JStr (or_str (A 3) ''Unknown'')),
               (''album'', JStr (or_str (A 4) [])),
               (''artUrl'', JStr (or_str (A 5) []))])
        (parseFloat (or_str (A 6) ''0'')) (Fin 0) (A 7) (A 8), S 9)"
    using assms(2,3)
    by (simp add: player_state_try_def p0 a0 p1 fb p6 p7 p8 fallback_length)
  then show ?thesis
    by (simp only: so S9) (simp only: A_def)
qed

lemma say_hi_query:
  "fst (playerctl tool metadata_query (start (Some say_hi))) = Some (formatted say_hi)"
  by code_simp

lemma say_hi_nonempty: "formatted say_hi \<noteq> []"
  by (simp add: formatted_def)

lemma say_hi_parse:
  "JSON_parse (formatted say_hi) = Inl (SyntaxError ''Unexpected token in JSON'')"
  by code_simp

text \<open>
  A title with quote characters: the structured output is not JSON, the fields are
  asked one by one, and the state returned has \<open>available: true\<close>.
\<close>

theorem malformed_metadata_is_available:
  "fst (playerctl tool metadata_query (start (Some say_hi))) = Some (formatted say_hi)
   \<and> JSON_parse (formatted say_hi) = Inl (SyntaxError ''Unexpected token in JSON'')
   \<and> get_prop (fst (getPlayerState tool (start (Some say_hi)))) ''available'' = Inr (JBool True)"
proof -
  from try_fallback [OF say_hi_query say_hi_nonempty say_hi_parse]
  have "get_prop (fst (getPlayerState tool (start (Some say_hi)))) ''available'' = Inr (JBool True)"
    by (simp add: getPlayerState_def)
  with say_hi_query say_hi_parse show ?thesis by (intro conjI)
qed

lemma numbers_song_a:
  "parseFloat ''30.0'' = Fin 30"
  "parseInt ''200000000'' = Fin 200000000"
  by (simp_all add: parseFloat_def parseInt_def is_space_def is_digit_def digits_val_def
      digit_val_def exponent_def pow10_def signed_def dbl_numeral)

lemma ms_song_a:
  "Math_floor (num_mul (Fin 30) (Fin 1000)) = Fin 30000"
  "Math_floor (num_div (Fin 200000000) (Fin 1000)) = Fin 200000"
  by (simp_all add: num_mul_def num_div_def dbl_numeral)

lemma say_hi_answers:
  \<open>answer tool fallback_queries 1 (start (Some say_hi)) = Some ''Playing''\<close>
  \<open>answer tool fallback_queries 2 (start (Some say_hi)) = Some ''Say "Hi"''\<close>
  \<open>answer tool fallback_queries 3 (start (Some say_hi)) = Some ''Band''\<close>
  \<open>answer tool fallback_queries 4 (start (Some say_hi)) = Some []\<close>
  \<open>answer tool fallback_queries 5 (start (Some say_hi)) = Some []\<close>
  \<open>answer tool fallback_queries 6 (start (Some say_hi)) = Some ''30.0''\<close>
  \<open>answer tool fallback_queries 7 (start (Some say_hi)) = Some ''Off''\<close>
  \<open>answer tool fallback_queries 8 (start (Some say_hi)) = Some ''None''\<close>
  by code_simp+

text \<open>
  C5, amended. When the metadata output of the bridge is absent or empty (program
  absent, non-zero exit, nothing printed), the local \<open>fetchState\<close> returns
  \<open>{playing: false, available: false}\<close> after that one query. When the output is not
  empty and not JSON, it goes on: after the status it asks title, artist, album and art
  URL one by one, then position, shuffle and loop, nine queries in all, and returns the
  state with \<open>available: true\<close> built from these answers (\<open>Unknown\<close> for a missing
  title or artist, duration 0). In every case a state with a boolean \<open>available\<close> is
  returned: nothing is thrown past \<open>getPlayerState\<close>.
\<close>

theorem local_state_never_raises:
  "(falsy_str (fst (playerctl exec metadata_query st)) \<longrightarrow>
      fst (getPlayerState exec st) = unavailable
      \<and> spawned (snd (getPlayerState exec st)) = spawned st @ [''playerctl '' @ metadata_query])
   \<and> (fst (playerctl exec metadata_query st) = Some raw \<and> raw \<noteq> [] \<and> JSON_parse raw = Inl err
      \<longrightarrow>
      fst (getPlayerState exec st) =
        JObj [(''available'', JBool True),
              (''playing'', JBool (answer exec fallback_queries 1 st = Some ''Playing'')),
              (''title'', JStr (or_str (answer exec fallback_queries 2 st) ''Unknown'')),
              (''artist'', JStr (or_str (answer exec fallback_queries 3 st) ''Unknown'')),
              (''album'', JStr (or_str (answer exec fallback_queries 4 st) [])),
              (''artUrl'', JStr (or_str (answer exec fallback_queries 5 st) [])),
              (''progress_ms'', JNum (Math_floor (num_mul
                  (parseFloat (or_str (answer exec fallback_queries 6 st) ''0'')) (Fin 1000)))),
              (''duration_ms'', JNum (Fin 0)),
              (''shuffle'', JBool (answer exec fallback_queries 7 st = Some ''On'')),
              (''loop'', JStr (or_str (answer exec fallback_queries 8 st) ''None''))]
      \<and> spawned (snd (getPlayerState exec st)) =
          spawned st @ map ((@) ''playerctl '') fallback_queries)
   \<and> (\<exists>b. get_prop (fst (getPlayerState exec st)) ''available'' = Inr (JBool b))"
proof (intro conjI impI)
  assume a: "falsy_str (fst (playerctl exec metadata_query st))"
  then show "fst (getPlayerState exec st) = unavailable"
    by (simp add: getPlayerState_absent)
  from a show "spawned (snd (getPlayerState exec st)) =
      spawned st @ [''playerctl '' @ metadata_query]"
    by (simp add: getPlayerState_absent playerctl_spawned)
next
  assume "fst (playerctl exec metadata_query st) = Some raw \<and> raw \<noteq> [] \<and> JSON_parse raw = Inl err"
  then have h: "fst (playerctl exec metadata_query st) = Some raw" "raw \<noteq> []"
    "JSON_parse raw = Inl err"
    by simp_all
  note t = try_fallback [OF h]
  show "fst (getPlayerState exec st) =
        JObj [(''available'', JBool True),
              (''playing'', JBool (answer exec fallback_queries 1 st = Some ''Playing'')),
              (''title'', JStr (or_str (answer exec fallback_queries 2 st) ''Unknown'')),
              (''artist'', JStr (or_str (answer exec fallback_queries 3 st) ''Unknown'')),
              (''album'', JStr (or_str (answer exec fallback_queries 4 st) [])),
              (''artUrl'', JStr (or_str (answer exec fallback_queries 5 st) [])),
              (''progress_ms'', JNum (Math_floor (num_mul
                  (parseFloat (or_str (answer exec fallback_queries 6 st) ''0'')) (Fin 1000)))),
              (''duration_ms'', JNum (Fin 0)),
              (''shuffle'', JBool (answer exec fallback_queries 7 st = Some ''On'')),
              (''loop'', JStr (or_str (answer exec fallback_queries 8 st) ''None''))]"
    by (simp add: getPlayerState_def t)
  show "spawned (snd (getPlayerState exec st)) =
          spawned st @ map ((@) ''playerctl '') fallback_queries"
    by (simp add: getPlayerState_def t after_spawned)
next
  show "\<exists>b. get_prop (fst (getPlayerState exec st)) ''available'' = Inr (JBool b)"
    by (rule getPlayerState_available)
qed

theorem local_state_never_raises_witness:
  \<open>falsy_str (fst (playerctl tool metadata_query (start None)))
   \<and> fst (getPlayerState tool (start None)) =
       JObj [(''playing'', JBool False), (''available'', JBool False)]
   \<and> fst (playerctl tool metadata_query (start (Some say_hi))) = Some (formatted say_hi)
   \<and> formatted say_hi \<noteq> []
   \<and> JSON_parse (formatted say_hi) = Inl (SyntaxError ''Unexpected token in JSON'')
   \<and> fst (getPlayerState tool (start (Some say_hi))) =
       JObj [(''available'', JBool True), (''playing'', JBool True),
             (''title'', JStr ''Say "Hi"''), (''artist'', JStr ''Band''),
             (''album'', JStr []), (''artUrl'', JStr []),
             (''progress_ms'', JNum (Fin 30000)), (''duration_ms'', JNum (Fin 0)),
             (''shuffle'', JBool False), (''loop'', JStr ''None'')]
   \<and> spawned (snd (getPlayerState tool (start (Some say_hi)))) =
       map ((@) ''playerctl '')
         [metadata_query, ''status'', ''metadata title'', ''metadata artist'',
          ''metadata album'', ''metadata mpris:artUrl'', ''position'', ''shuffle'', ''loop'']\<close>
proof -
  have h1: "falsy_str (fst (playerctl tool metadata_query (start None)))"
    by (simp add: playerctl_tool_none)
  note T1 = local_state_never_raises [of tool "start None"]
  note T2 = local_state_never_raises [of tool "start (Some say_hi)" "formatted say_hi"
      "SyntaxError ''Unexpected token in JSON''"]
  have a: "fst (getPlayerState tool (start None)) =
       JObj [(''playing'', JBool False), (''available'', JBool False)]"
    using T1 [THEN conjunct1, THEN mp, OF h1, THEN conjunct1] by (simp only: unavailable_def)
  have H: "fst (playerctl tool metadata_query (start (Some say_hi))) = Some (formatted say_hi)
      \<and> formatted say_hi \<noteq> []
      \<and> JSON_parse (formatted say_hi) = Inl (SyntaxError ''Unexpected token in JSON'')"
    by (intro conjI) (rule say_hi_query say_hi_nonempty say_hi_parse)+
  note C = T2 [THEN conjunct2, THEN conjunct1, THEN mp, OF H]
  have b: \<open>fst (getPlayerState tool (start (Some say_hi))) =
       JObj [(''available'', JBool True), (''playing'', JBool True),
             (''title'', JStr ''Say "Hi"''), (''artist'', JStr ''Band''),
             (''album'', JStr []), (''artUrl'', JStr []),
             (''progress_ms'', JNum (Fin 30000)), (''duration_ms'', JNum (Fin 0)),
             (''shuffle'', JBool False), (''loop'', JStr ''None'')]\<close>
    using C [THEN conjunct1]
    by (simp only: say_hi_answers) (simp add: numbers_song_a ms_song_a)
  have c: "spawned (snd (getPlayerState tool (start (Some say_hi)))) =
       map ((@) ''playerctl '')
         [metadata_query, ''status'', ''metadata title'', ''metadata artist'',
          ''metadata album'', ''metadata mpris:artUrl'', ''position'', ''shuffle'', ''loop'']"
    using C [THEN conjunct2] by (simp only: fallback_queries_def start_def bridge.simps append_Nil)
  show ?thesis
    by (intro conjI) (rule h1 a say_hi_query say_hi_nonempty say_hi_parse b c)+
qed

section \<open>Properties of the unit conversion\<close>


















section \<open>Properties of fetchPlayerState\<close>

lemma wire_unavailable: "wire unavailable = unavailable"
  by (simp add: unavailable_def)

lemma fetchMpris_unavailable: "fetchMprisState (Reply 200 (Some unavailable)) = JNull"
  by (simp add: fetchMprisState_def ok_def mpris_state_def bind_err_def unavailable_def)

lemma get_status_absent:
  "falsy_str (fst (playerctl exec metadata_query st)) \<Longrightarrow>
   served (fst (get_status exec st)) = Reply 200 (Some unavailable)"
  by (simp add: get_status_def getPlayerState_absent served_def res_json_def wire_unavailable)

lemma fetch_remote_204:
  assumes "\<not> useMpris (settings c)" "getValidToken e c = (Some t, c')" "t \<noteq> []"
    "player_api e t = Reply 204 b"
  shows "fetchPlayerState e c = (JNull, c')"
  using assms by (simp add: fetchPlayerState_def)

lemma fetch_local:
  "useMpris (settings c) \<Longrightarrow> fetchPlayerState e c = (fetchMprisState (plugin_status e), c)"
  by (simp add: fetchPlayerState_def)

text \<open>
  The remote fetch on HTTP 204 yields \<open>null\<close>, which is no object with
  \<open>available: false\<close>: reading \<open>available\<close> from it throws.
\<close>

theorem remote_204_is_null:
  "fst (fetchPlayerState (env_at 900000 granting) (signed_in 1000000)) = JNull
   \<and> get_prop (fst (fetchPlayerState (env_at 900000 granting) (signed_in 1000000))) ''available''
       \<noteq> Inr (JBool False)"
  by (simp add: fetchPlayerState_def getValidToken_def signed_in_def env_at_def js_sub_def)

text \<open>
  C1, amended. A remote fetch that receives HTTP 204 and a local fetch made when no
  player is running (the bridge's metadata query gives nothing, and the plugin answers
  with its state) both yield \<open>null\<close>: the same value for either backend, returned and
  not thrown.
\<close>

theorem unavailable_is_null_on_both:
  assumes "\<not> useMpris (settings c)" "getValidToken e c = (Some t, c')" "t \<noteq> []"
    "player_api e t = Reply 204 b"
    "useMpris (settings lc)" "falsy_str (fst (playerctl exec metadata_query st))"
    "plugin_status le = served (fst (get_status exec st))"
  shows "fst (fetchPlayerState e c) = JNull
    \<and> fst (fetchPlayerState le lc) = JNull
    \<and> fst (fetchPlayerState e c) = fst (fetchPlayerState le lc)"
proof -
  have r: "fst (fetchPlayerState e c) = JNull"
    using fetch_remote_204 [OF assms(1-4)] by simp
  have l: "fst (fetchPlayerState le lc) = JNull"
    using assms(5-7) by (simp add: fetch_local get_status_absent fetchMpris_unavailable)
  show ?thesis
    by (simp only: r l simp_thms)
qed

theorem unavailable_is_null_on_both_witness:
  "getValidToken (env_at 900000 granting) (signed_in 1000000) = (Some ''tok1'', signed_in 1000000)
   \<and> player_api (env_at 900000 granting) ''tok1'' = Reply 204 None
   \<and> falsy_str (fst (playerctl tool metadata_query (start None)))
   \<and> fst (fetchPlayerState (env_at 900000 granting) (signed_in 1000000)) = JNull
   \<and> fst (fetchPlayerState (env_plugin (served (fst (get_status tool (start None)))))
        local_client) = JNull"
proof -
  let ?e = "env_at 900000 granting"
  let ?c = "signed_in 1000000"
  let ?le = "env_plugin (served (fst (get_status tool (start None))))"
  have h1: "\<not> useMpris (settings ?c)" by (simp add: signed_in_def)
  have h2: "getValidToken ?e ?c = (Some ''tok1'', ?c)"
    by (simp add: getValidToken_def signed_in_def env_at_def js_sub_def)
  have h3: "''tok1'' \<noteq> []" by simp
  have h4: "player_api ?e ''tok1'' = Reply 204 None" by (simp add: env_at_def)
  have h5: "useMpris (settings local_client)" by (simp add: local_client_def)
  have h6: "falsy_str (fst (playerctl tool metadata_query (start None)))"
    by (simp add: playerctl_tool_none)
  have h7: "plugin_status ?le = served (fst (get_status tool (start None)))"
    by (simp add: env_plugin_def)
  note T = unavailable_is_null_on_both [OF h1 h2 h3 h4 h5 h6 h7]
  show ?thesis
    by (intro conjI) (rule h2 h4 h6 T [THEN conjunct1] T [THEN conjunct2, THEN conjunct1])+
qed

end
